theory Spec2Isabelle
  imports Complex_Main "HOL-Library.Multiset"
begin

section \<open>Particle text: gesture classification and particle physics\<close>

text \<open>
  A shallow embedding of the hand tracker (\<^verbatim>\<open>HandTracker.processResults\<close>,
  \<^verbatim>\<open>processLeftHand\<close>, \<^verbatim>\<open>processRightHand\<close>) and of the particle system
  (\<^verbatim>\<open>ParticleSystem.createGeometry\<close>, \<^verbatim>\<open>generateTextParticles\<close>, \<^verbatim>\<open>update\<close>).

  JavaScript numbers are modelled as exact reals: rounding, NaN and the infinities of
  IEEE doubles, and the rounding of a \<^verbatim>\<open>Float32Array\<close> store, are outside the model.
  \<^verbatim>\<open>Math.random()\<close> is an explicit source \<open>rnd :: nat \<Rightarrow> real\<close>, the k-th call
  returning \<open>rnd k\<close>. Reading a property of \<^verbatim>\<open>undefined\<close> is the error \<open>TypeError\<close>,
  which ends the call: the result is the error, and what the call had written before is
  not kept.
\<close>

subsection \<open>Vectors, colours and the configuration\<close>

datatype error = TypeError

datatype Vector3 = Vector3 (vec_x: real) (vec_y: real) (vec_z: real)

datatype Color = Color (col_r: real) (col_g: real) (col_b: real)

text \<open>\<^verbatim>\<open>CONFIG\<close> of \<^verbatim>\<open>config.js\<close>, the fields that the modelled code reads.\<close>

record config =
  particleCount :: nat
  returnSpeed :: real
  friction :: real
  canvasWidth :: nat
  canvasHeight :: nat
  samplingStep :: nat
  handInfluenceRadius :: real
  physicsInfluenceRadius :: real
  forceMultiplier :: real
  fistThreshold :: real
  openThreshold :: real

definition CONFIG :: config where
  "CONFIG = \<lparr> particleCount = 8000, returnSpeed = 12 / 100, friction = 92 / 100,
      canvasWidth = 1000, canvasHeight = 400, samplingStep = 4,
      handInfluenceRadius = 250, physicsInfluenceRadius = 50000,
      forceMultiplier = 15000, fistThreshold = 15 / 100, openThreshold = 28 / 100 \<rparr>"

subsection \<open>The hand tracker\<close>

text \<open>One of the 21 landmarks of a detected hand.\<close>

datatype landmark = Landmark (lm_x: real) (lm_y: real) (lm_z: real)

record interactionState =
  mode :: nat
  rightHandPos :: Vector3
  rightHandAction :: string

text \<open>The state that the constructor of \<^verbatim>\<open>HandTracker\<close> builds.\<close>

definition initialInteractionState :: interactionState where
  "initialInteractionState =
     \<lparr> mode = 1, rightHandPos = Vector3 9999 9999 0, rightHandAction = ''neutral'' \<rparr>"

text \<open>\<^verbatim>\<open>window.innerWidth\<close> and \<^verbatim>\<open>window.innerHeight\<close>.\<close>

record window =
  innerWidth :: real
  innerHeight :: real

text \<open>
  The detector's result: \<^verbatim>\<open>multiHandLandmarks\<close> and \<^verbatim>\<open>multiHandedness\<close> may be
  missing (\<open>None\<close>); a handedness entry is represented by its \<^verbatim>\<open>label\<close>.
\<close>

record results =
  multiHandLandmarks :: "landmark list list option"
  multiHandedness :: "string list option"

text \<open>
  \<^verbatim>\<open>Math.sqrt(Math.pow(a.x - b.x, 2) + Math.pow(a.y - b.y, 2))\<close>, the distance
  that the classifiers compute between two landmarks.
\<close>

definition dist2 :: "landmark \<Rightarrow> landmark \<Rightarrow> real" where
  "dist2 a b = sqrt ((lm_x a - lm_x b)\<^sup>2 + (lm_y a - lm_y b)\<^sup>2)"

text \<open>
  The number of the four non-thumb fingers whose tip is above its PIP joint
  (\<^verbatim>\<open>landmarks[8].y < landmarks[6].y\<close> and so on).
\<close>

definition extendedCount :: "landmark list \<Rightarrow> nat" where
  "extendedCount lm =
     (if lm_y (lm ! 8) < lm_y (lm ! 6) then 1 else 0)
   + (if lm_y (lm ! 12) < lm_y (lm ! 10) then 1 else 0)
   + (if lm_y (lm ! 16) < lm_y (lm ! 14) then 1 else 0)
   + (if lm_y (lm ! 20) < lm_y (lm ! 18) then 1 else 0)"

text \<open>
  \<^verbatim>\<open>processLeftHand\<close> of \<^verbatim>\<open>src/core/HandTracker.js\<close> (the same in
  \<^verbatim>\<open>part_002\<close>): the mode range is 1..3. A landmark array with fewer than 21 entries
  makes one of the reads \<^verbatim>\<open>landmarks[k].y\<close> fail before the mode is written.
\<close>

definition processLeftHand :: "interactionState \<Rightarrow> landmark list \<Rightarrow> error + interactionState" where
  "processLeftHand st lm =
     (if length lm \<le> 20 then Inl TypeError
      else let fingers = extendedCount lm in
        if 1 \<le> fingers \<and> fingers \<le> 3 \<and> mode st \<noteq> fingers
        then Inr (st\<lparr>mode := fingers\<rparr>) else Inr st)"

text \<open>The thumb test of \<^verbatim>\<open>part_003\<close>.\<close>

definition thumbExtended :: "landmark list \<Rightarrow> bool" where
  "thumbExtended lm =
     (lm_x (lm ! 4) > lm_x (lm ! 3) \<and> dist2 (lm ! 4) (lm ! 2) > dist2 (lm ! 3) (lm ! 2))"

text \<open>\<^verbatim>\<open>processLeftHand\<close> of \<^verbatim>\<open>part_003\<close>: the thumb counts, the mode range is 1..5.\<close>

text \<open>The finger count of \<^verbatim>\<open>part_003\<close>: the thumb and the four fingers.\<close>

definition fingers_part_003 :: "landmark list \<Rightarrow> nat" where
  "fingers_part_003 lm = (if thumbExtended lm then 1 else 0) + extendedCount lm"

definition processLeftHand_part_003 :: "interactionState \<Rightarrow> landmark list \<Rightarrow> error + interactionState" where
  "processLeftHand_part_003 st lm =
     (if length lm \<le> 20 then Inl TypeError
      else let fingers = fingers_part_003 lm in
        if 1 \<le> fingers \<and> fingers \<le> 5 \<and> mode st \<noteq> fingers
        then Inr (st\<lparr>mode := fingers\<rparr>) else Inr st)"

text \<open>
  The position of the right hand: landmark 9 through the camera-to-screen transform.
\<close>

definition handPosition :: "window \<Rightarrow> landmark list \<Rightarrow> Vector3" where
  "handPosition w lm =
     Vector3 ((1 - lm_x (lm ! 9)) * innerWidth w - innerWidth w / 2)
             (- (lm_y (lm ! 9) * innerHeight w - innerHeight w / 2)) 0"

text \<open>The average distance of the four fingertips to the wrist.\<close>

definition avgDist :: "landmark list \<Rightarrow> real" where
  "avgDist lm =
     (dist2 (lm ! 8) (lm ! 0) + dist2 (lm ! 12) (lm ! 0)
      + dist2 (lm ! 16) (lm ! 0) + dist2 (lm ! 20) (lm ! 0)) / 4"

text \<open>
  \<^verbatim>\<open>processRightHand\<close> of \<^verbatim>\<open>src/core/HandTracker.js\<close>: the action is decided
  by the average distance alone.
\<close>

definition processRightHand ::
  "config \<Rightarrow> window \<Rightarrow> interactionState \<Rightarrow> landmark list \<Rightarrow> error + interactionState" where
  "processRightHand cfg w st lm =
     (if length lm \<le> 20 then Inl TypeError
      else let st1 = st\<lparr>rightHandPos := handPosition w lm\<rparr>; d = avgDist lm in
        if d < fistThreshold cfg then Inr (st1\<lparr>rightHandAction := ''fist''\<rparr>)
        else if d > openThreshold cfg then Inr (st1\<lparr>rightHandAction := ''open''\<rparr>)
        else Inr (st1\<lparr>rightHandAction := ''neutral''\<rparr>))"

text \<open>
  The number of the four fingers whose tip is below its PIP joint
  (\<^verbatim>\<open>tip8.y > pip6.y\<close> and so on).
\<close>

definition curledFingers :: "landmark list \<Rightarrow> nat" where
  "curledFingers lm =
     (if lm_y (lm ! 8) > lm_y (lm ! 6) then 1 else 0)
   + (if lm_y (lm ! 12) > lm_y (lm ! 10) then 1 else 0)
   + (if lm_y (lm ! 16) > lm_y (lm ! 14) then 1 else 0)
   + (if lm_y (lm ! 20) > lm_y (lm ! 18) then 1 else 0)"

text \<open>The average distance of the four fingertips to their PIP joints.\<close>

definition avgTipToPipDist :: "landmark list \<Rightarrow> real" where
  "avgTipToPipDist lm =
     (dist2 (lm ! 8) (lm ! 6) + dist2 (lm ! 12) (lm ! 10)
      + dist2 (lm ! 16) (lm ! 14) + dist2 (lm ! 20) (lm ! 18)) / 4"

definition isFist :: "config \<Rightarrow> landmark list \<Rightarrow> bool" where
  "isFist cfg lm =
     ((curledFingers lm \<ge> 3 \<and> avgTipToPipDist lm < 8 / 100) \<or> avgDist lm < fistThreshold cfg)"

definition isOpen :: "config \<Rightarrow> landmark list \<Rightarrow> bool" where
  "isOpen cfg lm = (curledFingers lm \<le> 1 \<and> avgDist lm > openThreshold cfg)"

text \<open>\<^verbatim>\<open>processRightHand\<close> of \<^verbatim>\<open>part_002\<close>: finger curl analysis.\<close>

definition processRightHand_part_002 ::
  "config \<Rightarrow> window \<Rightarrow> interactionState \<Rightarrow> landmark list \<Rightarrow> error + interactionState" where
  "processRightHand_part_002 cfg w st lm =
     (if length lm \<le> 20 then Inl TypeError
      else let st1 = st\<lparr>rightHandPos := handPosition w lm\<rparr> in
        if isFist cfg lm then Inr (st1\<lparr>rightHandAction := ''fist''\<rparr>)
        else if isOpen cfg lm then Inr (st1\<lparr>rightHandAction := ''open''\<rparr>)
        else Inr (st1\<lparr>rightHandAction := ''neutral''\<rparr>))"

definition isOneFinger :: "landmark list \<Rightarrow> bool" where
  "isOneFinger lm =
     (4 - curledFingers lm = 1 \<and> lm_y (lm ! 8) < lm_y (lm ! 6)
      \<and> lm_y (lm ! 12) > lm_y (lm ! 10) \<and> lm_y (lm ! 16) > lm_y (lm ! 14)
      \<and> lm_y (lm ! 20) > lm_y (lm ! 18))"

definition isTwoFingers :: "config \<Rightarrow> landmark list \<Rightarrow> bool" where
  "isTwoFingers cfg lm = (4 - curledFingers lm = 2 \<and> avgDist lm > openThreshold cfg)"

text \<open>\<^verbatim>\<open>processRightHand\<close> of \<^verbatim>\<open>part_003\<close>: fist, two fingers, one finger, neutral.\<close>

definition processRightHand_part_003 ::
  "config \<Rightarrow> window \<Rightarrow> interactionState \<Rightarrow> landmark list \<Rightarrow> error + interactionState" where
  "processRightHand_part_003 cfg w st lm =
     (if length lm \<le> 20 then Inl TypeError
      else let st1 = st\<lparr>rightHandPos := handPosition w lm\<rparr> in
        if isFist cfg lm then Inr (st1\<lparr>rightHandAction := ''fist''\<rparr>)
        else if isTwoFingers cfg lm then Inr (st1\<lparr>rightHandAction := ''twoFingers''\<rparr>)
        else if isOneFinger lm then Inr (st1\<lparr>rightHandAction := ''oneFinger''\<rparr>)
        else Inr (st1\<lparr>rightHandAction := ''neutral''\<rparr>))"

text \<open>
  The loop of \<^verbatim>\<open>processResults\<close> over the detected hands, with the handlers of the
  left and of the right hand as parameters (the text of \<^verbatim>\<open>processResults\<close> is the same
  in every variant of the tracker). A hand without a handedness entry fails on
  \<^verbatim>\<open>classification.label\<close>.
\<close>

fun processHands ::
  "(interactionState \<Rightarrow> landmark list \<Rightarrow> error + interactionState) \<Rightarrow>
   (interactionState \<Rightarrow> landmark list \<Rightarrow> error + interactionState) \<Rightarrow>
   landmark list list \<Rightarrow> string list \<Rightarrow> interactionState \<Rightarrow> error + interactionState" where
  "processHands left right [] hs st = Inr st"
| "processHands left right (lm # lms) [] st = Inl TypeError"
| "processHands left right (lm # lms) (h # hs) st =
     (case (if h \<noteq> ''Right'' then left st lm else right st lm) of
        Inl e \<Rightarrow> Inl e
      | Inr st' \<Rightarrow> processHands left right lms hs st')"

definition processResultsWith ::
  "(interactionState \<Rightarrow> landmark list \<Rightarrow> error + interactionState) \<Rightarrow>
   (interactionState \<Rightarrow> landmark list \<Rightarrow> error + interactionState) \<Rightarrow>
   interactionState \<Rightarrow> results \<Rightarrow> error + interactionState" where
  "processResultsWith left right st r =
     (let st0 = st\<lparr>rightHandPos := Vector3 9999 9999 0, rightHandAction := ''neutral''\<rparr> in
      case multiHandLandmarks r of
        None \<Rightarrow> Inr st0
      | Some lms \<Rightarrow>
          (case multiHandedness r of
             None \<Rightarrow> Inr st0
           | Some hs \<Rightarrow> processHands left right lms hs st0))"

text \<open>\<^verbatim>\<open>processResults\<close> of \<^verbatim>\<open>src/core/HandTracker.js\<close>, \<^verbatim>\<open>part_002\<close> and \<^verbatim>\<open>part_003\<close>.\<close>

definition processResults ::
  "config \<Rightarrow> window \<Rightarrow> interactionState \<Rightarrow> results \<Rightarrow> error + interactionState" where
  "processResults cfg w = processResultsWith processLeftHand (processRightHand cfg w)"

definition processResults_part_002 ::
  "config \<Rightarrow> window \<Rightarrow> interactionState \<Rightarrow> results \<Rightarrow> error + interactionState" where
  "processResults_part_002 cfg w =
     processResultsWith processLeftHand (processRightHand_part_002 cfg w)"

definition processResults_part_003 ::
  "config \<Rightarrow> window \<Rightarrow> interactionState \<Rightarrow> results \<Rightarrow> error + interactionState" where
  "processResults_part_003 cfg w =
     processResultsWith processLeftHand_part_003 (processRightHand_part_003 cfg w)"

text \<open>The number of hands in a detector result.\<close>

definition handCount :: "results \<Rightarrow> nat" where
  "handCount r = (case multiHandLandmarks r of None \<Rightarrow> 0 | Some lms \<Rightarrow> length lms)"

text \<open>The hands of a result that the loop hands to \<^verbatim>\<open>processLeftHand\<close>.\<close>

definition leftHands :: "results \<Rightarrow> landmark list list" where
  "leftHands r =
     (case (multiHandLandmarks r, multiHandedness r) of
        (Some lms, Some hs) \<Rightarrow> map fst (filter (\<lambda>(lm, h). h \<noteq> ''Right'') (zip lms hs))
      | _ \<Rightarrow> [])"

subsection \<open>The particle system: state and construction\<close>

text \<open>
  The particle system keeps three arrays of \<^verbatim>\<open>THREE.Vector3\<close> objects, which
  \<^verbatim>\<open>update\<close> and \<^verbatim>\<open>generateTextParticles\<close> mutate in place. The objects live in
  an explicit store (\<open>heap\<close>, from addresses to values) and the arrays hold addresses, so
  that two array cells naming the same object are expressible. \<open>positions\<close> and
  \<open>colors\<close> are the typed arrays of the geometry: a write beyond their length is
  ignored, as \<open>xs[i := v]\<close> is.
\<close>

record particleSystem =
  heap :: "nat \<Rightarrow> Vector3"
  nextAddr :: nat
  currentPositions :: "nat list"
  velocities :: "nat list"
  targetPositions :: "nat list"
  positions :: "real list"
  colors :: "real list"

record theme =
  name :: string
  color1 :: Color
  color2 :: Color
  themeText :: string

text \<open>\<^verbatim>\<open>new THREE.Vector3(x, y, z)\<close>: a fresh object.\<close>

definition newVector3 :: "Vector3 \<Rightarrow> particleSystem \<Rightarrow> nat \<times> particleSystem" where
  "newVector3 v s =
     (nextAddr s, s\<lparr>heap := (heap s)(nextAddr s := v), nextAddr := Suc (nextAddr s)\<rparr>)"

text \<open>The state of the constructor before \<^verbatim>\<open>init\<close>, with the two typed arrays allocated.\<close>

definition emptySystem :: "config \<Rightarrow> particleSystem" where
  "emptySystem cfg =
     \<lparr> heap = (\<lambda>_. Vector3 0 0 0), nextAddr = 0, currentPositions = [], velocities = [],
       targetPositions = [],
       positions = replicate (particleCount cfg * 3) 0,
       colors = replicate (particleCount cfg * 3) 0 \<rparr>"

text \<open>One turn of the loop of \<^verbatim>\<open>createGeometry\<close>.\<close>

definition createParticle :: "(nat \<Rightarrow> real) \<Rightarrow> nat \<Rightarrow> particleSystem \<Rightarrow> particleSystem" where
  "createParticle rnd i s =
     (let ps = (positions s)[i * 3 := (rnd (3 * i) - 1 / 2) * 1500,
                             i * 3 + 1 := (rnd (3 * i + 1) - 1 / 2) * 1500,
                             i * 3 + 2 := (rnd (3 * i + 2) - 1 / 2) * 1000];
          cs = (colors s)[i * 3 := 1, i * 3 + 1 := 1, i * 3 + 2 := 1];
          s0 = s\<lparr>positions := ps, colors := cs\<rparr>;
          (pa, s1) = newVector3 (Vector3 (ps ! (i * 3)) (ps ! (i * 3 + 1)) (ps ! (i * 3 + 2))) s0;
          s2 = s1\<lparr>currentPositions := currentPositions s1 @ [pa]\<rparr>;
          (va, s3) = newVector3 (Vector3 0 0 0) s2;
          s4 = s3\<lparr>velocities := velocities s3 @ [va]\<rparr>;
          (ta, s5) = newVector3 (Vector3 0 0 0) s4
      in s5\<lparr>targetPositions := targetPositions s5 @ [ta]\<rparr>)"

definition createGeometry :: "config \<Rightarrow> (nat \<Rightarrow> real) \<Rightarrow> particleSystem" where
  "createGeometry cfg rnd = fold (createParticle rnd) [0..<particleCount cfg] (emptySystem cfg)"

text \<open>
  What \<^verbatim>\<open>createGeometry\<close> establishes and every method keeps: the three arrays have
  one cell per particle, all cells name different objects, and the typed arrays have
  three entries per particle.
\<close>

definition wellFormed :: "config \<Rightarrow> particleSystem \<Rightarrow> bool" where
  "wellFormed cfg s =
     (length (currentPositions s) = particleCount cfg
      \<and> length (velocities s) = particleCount cfg
      \<and> length (targetPositions s) = particleCount cfg
      \<and> distinct (currentPositions s @ velocities s @ targetPositions s)
      \<and> length (positions s) = particleCount cfg * 3
      \<and> length (colors s) = particleCount cfg * 3)"

subsection \<open>Sampling the glyph\<close>

datatype glyphPoint = GlyphPoint (gp_x: real) (gp_y: real)

text \<open>
  \<^verbatim>\<open>data[(y * W + x) * 4] > 128\<close> on the pixel bytes of the canvas; a read beyond
  the array is \<^verbatim>\<open>undefined\<close> and compares false.
\<close>

definition foreground :: "nat list \<Rightarrow> nat \<Rightarrow> nat \<Rightarrow> nat \<Rightarrow> bool" where
  "foreground data W y x = ((y * W + x) * 4 < length data \<and> data ! ((y * W + x) * 4) > 128)"

definition glyphAt :: "nat \<Rightarrow> nat \<Rightarrow> nat \<Rightarrow> nat \<Rightarrow> glyphPoint" where
  "glyphAt W H y x =
     GlyphPoint ((real x - real W / 2) * (22 / 10)) (- (real y - real H / 2) * (22 / 10))"

text \<open>
  The two nested loops over the canvas. With a sampling step of 0 they do not end, which
  is the value \<open>None\<close>.
\<close>

partial_function (option) scanRow ::
  "nat list \<Rightarrow> nat \<Rightarrow> nat \<Rightarrow> nat \<Rightarrow> nat \<Rightarrow> nat \<Rightarrow> glyphPoint list \<Rightarrow> glyphPoint list option" where
  "scanRow data W H step y x acc =
     (if x < W
      then scanRow data W H step y (x + step)
             (if foreground data W y x then acc @ [glyphAt W H y x] else acc)
      else Some acc)"

partial_function (option) scanRows ::
  "nat list \<Rightarrow> nat \<Rightarrow> nat \<Rightarrow> nat \<Rightarrow> nat \<Rightarrow> glyphPoint list \<Rightarrow> glyphPoint list option" where
  "scanRows data W H step y acc =
     (if y < H
      then Option.bind (scanRow data W H step y 0 acc)
             (\<lambda>acc'. scanRows data W H step (y + step) acc')
      else Some acc)"

definition samplePoints :: "config \<Rightarrow> nat list \<Rightarrow> glyphPoint list option" where
  "samplePoints cfg data =
     scanRows data (canvasWidth cfg) (canvasHeight cfg) (samplingStep cfg) 0 []"

subsection \<open>The shuffle\<close>

text \<open>
  \<^verbatim>\<open>validPoints.sort(() => Math.random() - 0.5)\<close>. The sorting algorithm belongs to
  the JavaScript engine and is a parameter here. Whatever it is, on a given array it
  asks the comparator and goes on according to the sign of the answer, until it stops
  with the array rearranged: a decision tree, \<open>Cmp neg zero pos\<close> being one call of the
  comparator with the three continuations, \<open>Done ys\<close> the final order.
\<close>

datatype 'a sortTree = Done "'a list" | Cmp "'a sortTree" "'a sortTree" "'a sortTree"

text \<open>
  Running the sort with the comparator of the source, which ignores its arguments:
  the k-th draw decides the call. The result is the final order and the number of the
  next draw.
\<close>

fun runSort :: "'a sortTree \<Rightarrow> (nat \<Rightarrow> real) \<Rightarrow> nat \<Rightarrow> 'a list \<times> nat" where
  "runSort (Done ys) rnd k = (ys, k)"
| "runSort (Cmp neg zero pos) rnd k =
     (let c = rnd k - 1 / 2 in
      if c < 0 then runSort neg rnd (Suc k)
      else if c = 0 then runSort zero rnd (Suc k)
      else runSort pos rnd (Suc k))"

fun leaves :: "'a sortTree \<Rightarrow> 'a list list" where
  "leaves (Done ys) = [ys]"
| "leaves (Cmp neg zero pos) = leaves neg @ leaves zero @ leaves pos"

text \<open>A sort rearranges: every final order is a permutation of the array.\<close>

definition sortPermutes :: "'a sortTree \<Rightarrow> 'a list \<Rightarrow> bool" where
  "sortPermutes t xs = list_all (\<lambda>ys. mset ys = mset xs) (leaves t)"

fun treeHeight :: "'a sortTree \<Rightarrow> nat" where
  "treeHeight (Done ys) = 0"
| "treeHeight (Cmp neg zero pos) =
     Suc (max (treeHeight neg) (max (treeHeight zero) (treeHeight pos)))"

text \<open>
  The probability of a final order when every draw is uniform on the interval from 0
  to 1 and independent: \<^verbatim>\<open>Math.random() - 0.5\<close> is negative with probability one half,
  positive with probability one half, and zero with probability 0.
\<close>

fun sortProb :: "'a sortTree \<Rightarrow> 'a list \<Rightarrow> real" where
  "sortProb (Done ys) out = (if ys = out then 1 else 0)"
| "sortProb (Cmp neg zero pos) out = sortProb neg out / 2 + sortProb pos out / 2"

text \<open>
  The sort run on a list of signs, one per call of the comparator (\<open>True\<close> for a
  negative answer): \<open>None\<close> when the signs run out.
\<close>

fun runSigns :: "'a sortTree \<Rightarrow> bool list \<Rightarrow> 'a list option" where
  "runSigns (Done ys) bs = Some ys"
| "runSigns (Cmp neg zero pos) [] = None"
| "runSigns (Cmp neg zero pos) (b # bs) = runSigns (if b then neg else pos) bs"

text \<open>
  One engine, for concreteness: insertion sort. The tail is sorted first; then the head
  is compared with the elements from the front on and goes before the first one for
  which the answer of the comparator is not positive.
\<close>

fun bindTree :: "'a sortTree \<Rightarrow> ('a list \<Rightarrow> 'a sortTree) \<Rightarrow> 'a sortTree" where
  "bindTree (Done ys) f = f ys"
| "bindTree (Cmp neg zero pos) f = Cmp (bindTree neg f) (bindTree zero f) (bindTree pos f)"

fun insertTree :: "'a \<Rightarrow> 'a list \<Rightarrow> 'a sortTree" where
  "insertTree a [] = Done [a]"
| "insertTree a (b # bs) =
     Cmp (Done (a # b # bs)) (Done (a # b # bs))
         (bindTree (insertTree a bs) (\<lambda>zs. Done (b # zs)))"

fun insertionSort :: "'a list \<Rightarrow> 'a sortTree" where
  "insertionSort [] = Done []"
| "insertionSort (a # as) = bindTree (insertionSort as) (insertTree a)"

subsection \<open>Text generation\<close>

text \<open>
  The loop of \<^verbatim>\<open>generateTextParticles\<close> over the particles: a glyph point while
  there is one, three draws for a point of the ring otherwise. \<open>k\<close> numbers the next
  draw.
\<close>

definition ringPoint :: "(nat \<Rightarrow> real) \<Rightarrow> nat \<Rightarrow> Vector3" where
  "ringPoint rnd k =
     (let angle = rnd k * pi * 2; r = 500 + rnd (k + 1) * 500
      in Vector3 (cos angle * r) (sin angle * r) ((rnd (k + 2) - 1 / 2) * 400))"

fun fillTargets ::
  "glyphPoint list \<Rightarrow> (nat \<Rightarrow> real) \<Rightarrow> nat list \<Rightarrow> nat \<Rightarrow> particleSystem
   \<Rightarrow> error + particleSystem" where
  "fillTargets vp rnd [] k s = Inr s"
| "fillTargets vp rnd (i # is) k s =
     (if length (targetPositions s) \<le> i then Inl TypeError
      else if i < length vp
      then fillTargets vp rnd is k
             (s\<lparr>heap := (heap s)(targetPositions s ! i :=
                   Vector3 (gp_x (vp ! i)) (gp_y (vp ! i)) 0)\<rparr>)
      else fillTargets vp rnd is (k + 3)
             (s\<lparr>heap := (heap s)(targetPositions s ! i := ringPoint rnd k)\<rparr>))"

text \<open>
  \<^verbatim>\<open>generateTextParticles\<close>. \<open>render\<close> is the browser's canvas: the pixel bytes of the
  text drawn in white on black. \<open>engine\<close> is the engine's sort. The result is \<open>None\<close>
  when the sampling loops do not end.
\<close>

definition generateTextParticles ::
  "config \<Rightarrow> (string \<Rightarrow> nat list) \<Rightarrow> (glyphPoint list \<Rightarrow> glyphPoint sortTree)
   \<Rightarrow> (nat \<Rightarrow> real) \<Rightarrow> string \<Rightarrow> particleSystem \<Rightarrow> (error + particleSystem) option" where
  "generateTextParticles cfg render engine rnd txt s =
     (case samplePoints cfg (render txt) of
        None \<Rightarrow> None
      | Some validPoints \<Rightarrow>
          (let (shuffled, k) = runSort (engine validPoints) rnd 0
           in Some (fillTargets shuffled rnd [0..<particleCount cfg] k s)))"

subsection \<open>The physics update\<close>

definition vadd :: "Vector3 \<Rightarrow> Vector3 \<Rightarrow> Vector3" where
  "vadd a b = Vector3 (vec_x a + vec_x b) (vec_y a + vec_y b) (vec_z a + vec_z b)"

definition vscale :: "Vector3 \<Rightarrow> real \<Rightarrow> Vector3" where
  "vscale a c = Vector3 (vec_x a * c) (vec_y a * c) (vec_z a * c)"

text \<open>\<^verbatim>\<open>Vector3.distanceTo\<close> and \<^verbatim>\<open>Color.lerp\<close> of three.js.\<close>

definition distanceTo :: "Vector3 \<Rightarrow> Vector3 \<Rightarrow> real" where
  "distanceTo a b =
     sqrt ((vec_x a - vec_x b)\<^sup>2 + (vec_y a - vec_y b)\<^sup>2 + (vec_z a - vec_z b)\<^sup>2)"

definition lerp :: "Color \<Rightarrow> Color \<Rightarrow> real \<Rightarrow> Color" where
  "lerp c d a =
     Color (col_r c + (col_r d - col_r c) * a) (col_g c + (col_g d - col_g c) * a)
           (col_b c + (col_b d - col_b c) * a)"

definition mixRatio :: "real \<Rightarrow> Vector3 \<Rightarrow> real" where
  "mixRatio time p = (sin (time * (15 / 10) + vec_x p * (15 / 10000)) + 1) / 2"

text \<open>
  \<^verbatim>\<open>tempColor\<close> after the colour animation and the hand proximity effect, before the
  final brightening.
\<close>

definition tempColor :: "config \<Rightarrow> real \<Rightarrow> theme \<Rightarrow> Vector3 \<Rightarrow> Vector3 \<Rightarrow> Color" where
  "tempColor cfg time th rhPos p =
     (let c = lerp (color1 th) (color2 th) (mixRatio time p) in
      if vec_x rhPos \<noteq> 9999 then
        (let distToHand = distanceTo p rhPos in
         if distToHand < handInfluenceRadius cfg then
           (let influence = 1 - distToHand / handInfluenceRadius cfg;
                c' = lerp c (Color 1 1 1) (influence * (9 / 10))
            in Color (col_r c' * (12 / 10)) (col_g c' * (12 / 10)) (col_b c' * (12 / 10)))
         else c)
      else c)"

text \<open>The return force \<^verbatim>\<open>(t - p) * CONFIG.returnSpeed\<close>.\<close>

definition returnForce :: "config \<Rightarrow> Vector3 \<Rightarrow> Vector3 \<Rightarrow> Vector3" where
  "returnForce cfg t p =
     Vector3 ((vec_x t - vec_x p) * returnSpeed cfg) ((vec_y t - vec_y p) * returnSpeed cfg)
             ((vec_z t - vec_z p) * returnSpeed cfg)"

text \<open>The noise of particle \<open>i\<close>: three draws.\<close>

definition noise :: "(nat \<Rightarrow> real) \<Rightarrow> nat \<Rightarrow> Vector3" where
  "noise rnd i =
     Vector3 ((rnd (3 * i) - 1 / 2) * (8 / 10)) ((rnd (3 * i + 1) - 1 / 2) * (8 / 10))
             ((rnd (3 * i + 2) - 1 / 2) * (8 / 10))"

text \<open>
  The block \<^verbatim>\<open>if (rhPos.x !== 9999) { ... }\<close> of the physics: the velocity \<open>v\<close> after
  the block, for a particle at \<open>p\<close>.
\<close>

definition handInteraction :: "config \<Rightarrow> Vector3 \<Rightarrow> string \<Rightarrow> Vector3 \<Rightarrow> Vector3 \<Rightarrow> Vector3" where
  "handInteraction cfg rhPos rhAction p v =
     (if vec_x rhPos \<noteq> 9999 then
        (let dx = vec_x p - vec_x rhPos; dy = vec_y p - vec_y rhPos; dz = vec_z p - vec_z rhPos;
             distSq = dx * dx + dy * dy + dz * dz + 100
         in if distSq < physicsInfluenceRadius cfg then
              (let forceMagnitude = forceMultiplier cfg / distSq in
               if rhAction = ''fist'' then
                 Vector3 (vec_x v - dx * forceMagnitude * (8 / 100) + dy * (5 / 100))
                         (vec_y v - dy * forceMagnitude * (8 / 100) - dx * (5 / 100))
                         (vec_z v - dz * forceMagnitude * (8 / 100))
               else if rhAction = ''open'' then
                 Vector3 (vec_x v + dx * forceMagnitude * (15 / 100))
                         (vec_y v + dy * forceMagnitude * (15 / 100))
                         (vec_z v + (dz * forceMagnitude * (15 / 100) + 2))
               else
                 Vector3 (vec_x v + dx * forceMagnitude * (2 / 100))
                         (vec_y v + dy * forceMagnitude * (2 / 100))
                         (vec_z v + dz * forceMagnitude * (2 / 100)))
            else v)
      else v)"

text \<open>
  One turn of the loop of \<^verbatim>\<open>update\<close>: the colour, then the velocity object is written
  four times (return force, noise, hand, friction), then the position object, then the
  position buffer. Every read goes to the store as it is at that point.
\<close>

definition updateParticle ::
  "config \<Rightarrow> real \<Rightarrow> theme \<Rightarrow> interactionState \<Rightarrow> (nat \<Rightarrow> real) \<Rightarrow> nat \<Rightarrow> particleSystem
   \<Rightarrow> error + particleSystem" where
  "updateParticle cfg time th ist rnd i s =
     (if length (currentPositions s) \<le> i \<or> length (velocities s) \<le> i
         \<or> length (targetPositions s) \<le> i
      then Inl TypeError
      else
        (let pa = currentPositions s ! i; va = velocities s ! i; ta = targetPositions s ! i;
             h0 = heap s;
             c = tempColor cfg time th (rightHandPos ist) (h0 pa);
             cs = (colors s)[i * 3 := min 1 (col_r c * (12 / 10)),
                             i * 3 + 1 := min 1 (col_g c * (12 / 10)),
                             i * 3 + 2 := min 1 (col_b c * (12 / 10))];
             h1 = h0(va := vadd (h0 va) (returnForce cfg (h0 ta) (h0 pa)));
             h2 = h1(va := vadd (h1 va) (noise rnd i));
             h3 = h2(va := handInteraction cfg (rightHandPos ist) (rightHandAction ist)
                             (h2 pa) (h2 va));
             h4 = h3(va := vscale (h3 va) (friction cfg));
             h5 = h4(pa := vadd (h4 pa) (h4 va));
             ps = (positions s)[i * 3 := vec_x (h5 pa), i * 3 + 1 := vec_y (h5 pa),
                                i * 3 + 2 := vec_z (h5 pa)]
         in Inr (s\<lparr>heap := h5, colors := cs, positions := ps\<rparr>)))"

fun updateLoop ::
  "config \<Rightarrow> real \<Rightarrow> theme \<Rightarrow> interactionState \<Rightarrow> (nat \<Rightarrow> real) \<Rightarrow> nat list \<Rightarrow> particleSystem
   \<Rightarrow> error + particleSystem" where
  "updateLoop cfg time th ist rnd [] s = Inr s"
| "updateLoop cfg time th ist rnd (i # is) s =
     (case updateParticle cfg time th ist rnd i s of
        Inl e \<Rightarrow> Inl e
      | Inr s' \<Rightarrow> updateLoop cfg time th ist rnd is s')"

definition update ::
  "config \<Rightarrow> real \<Rightarrow> theme \<Rightarrow> interactionState \<Rightarrow> (nat \<Rightarrow> real) \<Rightarrow> particleSystem
   \<Rightarrow> error + particleSystem" where
  "update cfg time th ist rnd s = updateLoop cfg time th ist rnd [0..<particleCount cfg] s"

subsection \<open>Predicates and reference values for the properties\<close>

text \<open>
  The state after \<open>k\<close> turns of the loop of \<^verbatim>\<open>createGeometry\<close>: the objects of
  particle \<open>i\<close> are at the addresses \<open>3 * i\<close>, \<open>3 * i + 1\<close> and \<open>3 * i + 2\<close>.
\<close>

definition built :: "config \<Rightarrow> nat \<Rightarrow> particleSystem \<Rightarrow> bool" where
  "built cfg k s =
     (currentPositions s = map (\<lambda>i. 3 * i) [0..<k]
      \<and> velocities s = map (\<lambda>i. 3 * i + 1) [0..<k]
      \<and> targetPositions s = map (\<lambda>i. 3 * i + 2) [0..<k]
      \<and> nextAddr s = 3 * k
      \<and> length (positions s) = particleCount cfg * 3
      \<and> length (colors s) = particleCount cfg * 3)"

text \<open>
  The velocity that the hand block adds to a particle at \<open>p\<close>: the block run on a
  velocity of zero.
\<close>

definition handForce :: "config \<Rightarrow> Vector3 \<Rightarrow> string \<Rightarrow> Vector3 \<Rightarrow> Vector3" where
  "handForce cfg rhPos rhAction p = handInteraction cfg rhPos rhAction p (Vector3 0 0 0)"

text \<open>
  The velocity of the specification, to compare \<^verbatim>\<open>update\<close> with: the friction times
  the sum of the old velocity, the return force, the noise and the hand force.
\<close>

definition specVelocity ::
  "config \<Rightarrow> interactionState \<Rightarrow> (nat \<Rightarrow> real) \<Rightarrow> nat \<Rightarrow> Vector3 \<Rightarrow> Vector3 \<Rightarrow> Vector3 \<Rightarrow> Vector3" where
  "specVelocity cfg ist rnd i p v t =
     vscale (vadd (vadd (vadd v (returnForce cfg t p)) (noise rnd i))
                  (handForce cfg (rightHandPos ist) (rightHandAction ist) p))
            (friction cfg)"

text \<open>The arrays hold the same objects and the typed arrays keep their lengths.\<close>

definition sameShape :: "particleSystem \<Rightarrow> particleSystem \<Rightarrow> bool" where
  "sameShape s s' =
     (currentPositions s' = currentPositions s \<and> velocities s' = velocities s
      \<and> targetPositions s' = targetPositions s \<and> nextAddr s' = nextAddr s
      \<and> length (positions s') = length (positions s)
      \<and> length (colors s') = length (colors s))"

text \<open>
  What one call of \<^verbatim>\<open>update\<close> does to particle \<open>i\<close>, from the state \<open>s\<close>
  before to the state \<open>s'\<close> after.
\<close>

definition particleStep ::
  "config \<Rightarrow> real \<Rightarrow> theme \<Rightarrow> interactionState \<Rightarrow> (nat \<Rightarrow> real) \<Rightarrow> nat \<Rightarrow> particleSystem
   \<Rightarrow> particleSystem \<Rightarrow> bool" where
  "particleStep cfg time th ist rnd i s s' =
     (let p = heap s (currentPositions s ! i); v = heap s (velocities s ! i);
          t = heap s (targetPositions s ! i);
          v' = specVelocity cfg ist rnd i p v t;
          p' = vadd p v';
          c = tempColor cfg time th (rightHandPos ist) p
      in heap s' (velocities s ! i) = v' \<and> heap s' (currentPositions s ! i) = p'
         \<and> heap s' (targetPositions s ! i) = t
         \<and> positions s' ! (i * 3) = vec_x p' \<and> positions s' ! (i * 3 + 1) = vec_y p'
         \<and> positions s' ! (i * 3 + 2) = vec_z p'
         \<and> colors s' ! (i * 3) = min 1 (col_r c * (12 / 10))
         \<and> colors s' ! (i * 3 + 1) = min 1 (col_g c * (12 / 10))
         \<and> colors s' ! (i * 3 + 2) = min 1 (col_b c * (12 / 10)))"

text \<open>
  Outside the position and velocity objects and the buffer slots of the particles
  \<open>is\<close>, nothing is written.
\<close>

definition untouched :: "nat list \<Rightarrow> particleSystem \<Rightarrow> particleSystem \<Rightarrow> bool" where
  "untouched is s s' =
     ((\<forall>a. a \<notin> (\<lambda>i. currentPositions s ! i) ` set is \<longrightarrow> a \<notin> (\<lambda>i. velocities s ! i) ` set is
            \<longrightarrow> heap s' a = heap s a)
      \<and> (\<forall>j. j div 3 \<notin> set is \<longrightarrow> positions s' ! j = positions s ! j \<and> colors s' ! j = colors s ! j))"

text \<open>A colour whose channels are between 0 and 1.\<close>

definition validColor :: "Color \<Rightarrow> bool" where
  "validColor c = (0 \<le> col_r c \<and> col_r c \<le> 1 \<and> 0 \<le> col_g c \<and> col_g c \<le> 1
                   \<and> 0 \<le> col_b c \<and> col_b c \<le> 1)"

text \<open>The difference and the inner product of two vectors.\<close>

definition vsub :: "Vector3 \<Rightarrow> Vector3 \<Rightarrow> Vector3" where
  "vsub a b = Vector3 (vec_x a - vec_x b) (vec_y a - vec_y b) (vec_z a - vec_z b)"

definition dot :: "Vector3 \<Rightarrow> Vector3 \<Rightarrow> real" where
  "dot a b = vec_x a * vec_x b + vec_y a * vec_y b + vec_z a * vec_z b"

text \<open>
  \<^verbatim>\<open>distSq\<close> and \<^verbatim>\<open>forceMagnitude\<close> of the hand block, and the rotation that the
  fist adds (\<^verbatim>\<open>v.x += dy * 0.05; v.y -= dx * 0.05\<close>).
\<close>

definition distSq :: "Vector3 \<Rightarrow> Vector3 \<Rightarrow> real" where
  "distSq rhPos p = dot (vsub p rhPos) (vsub p rhPos) + 100"

definition forceMagnitude :: "config \<Rightarrow> Vector3 \<Rightarrow> Vector3 \<Rightarrow> real" where
  "forceMagnitude cfg rhPos p = forceMultiplier cfg / distSq rhPos p"

definition swirl :: "Vector3 \<Rightarrow> Vector3 \<Rightarrow> Vector3" where
  "swirl rhPos p = Vector3 ((vec_y p - vec_y rhPos) * (5 / 100)) (- (vec_x p - vec_x rhPos) * (5 / 100)) 0"

text \<open>
  A force on a particle at \<open>p\<close> attracts it to the hand when it has a positive
  component along the direction from the particle to the hand, and repels it when it has
  a positive component along the opposite direction.
\<close>

definition attracts :: "Vector3 \<Rightarrow> Vector3 \<Rightarrow> Vector3 \<Rightarrow> bool" where
  "attracts rhPos p f = (dot f (vsub rhPos p) > 0)"

definition repels :: "Vector3 \<Rightarrow> Vector3 \<Rightarrow> Vector3 \<Rightarrow> bool" where
  "repels rhPos p f = (dot f (vsub p rhPos) > 0)"

text \<open>
  The target of particle \<open>i\<close> after text generation, to compare the loop with: the
  i-th point while there is one, and otherwise the point of the ring made of the three
  draws that follow the \<open>k0\<close> draws of the shuffle and the draws of the ring points
  before it.
\<close>

definition targetFor :: "glyphPoint list \<Rightarrow> (nat \<Rightarrow> real) \<Rightarrow> nat \<Rightarrow> nat \<Rightarrow> Vector3" where
  "targetFor vp rnd k0 i =
     (if i < length vp then Vector3 (gp_x (vp ! i)) (gp_y (vp ! i)) 0
      else ringPoint rnd (k0 + 3 * (i - length vp)))"

text \<open>A random source as \<^verbatim>\<open>Math.random()\<close> promises it: every draw is in [0, 1).\<close>

definition unitSource :: "(nat \<Rightarrow> real) \<Rightarrow> bool" where
  "unitSource rnd = (\<forall>k. 0 \<le> rnd k \<and> rnd k < 1)"

text \<open>
  The shuffle is uniform when all rearrangements of the array are equally likely final
  orders.
\<close>

definition equallyLikely :: "'a sortTree \<Rightarrow> 'a list \<Rightarrow> bool" where
  "equallyLikely t xs =
     (\<forall>ys zs. mset ys = mset xs \<longrightarrow> mset zs = mset xs \<longrightarrow> sortProb t ys = sortProb t zs)"

subsection \<open>Example inputs\<close>

text \<open>
  A hand whose four fingertips are straight below the wrist at distance \<open>d\<close> (the
  image's y axis points down) and 0.03 below their PIP joints: four curled fingers,
  tips close to the joints, and an average distance of \<open>d\<close> to the wrist.
\<close>

definition fistHand :: "real \<Rightarrow> landmark list" where
  "fistHand d =
     [Landmark 0 0 0, Landmark 0 0 0, Landmark 0 0 0, Landmark 0 0 0, Landmark 0 0 0,
      Landmark 0 0 0, Landmark 0 (d - 3 / 100) 0, Landmark 0 0 0, Landmark 0 d 0,
      Landmark (1 / 2) (1 / 2) 0, Landmark 0 (d - 3 / 100) 0, Landmark 0 0 0, Landmark 0 d 0,
      Landmark 0 0 0, Landmark 0 (d - 3 / 100) 0, Landmark 0 0 0, Landmark 0 d 0,
      Landmark 0 0 0, Landmark 0 (d - 3 / 100) 0, Landmark 0 0 0, Landmark 0 d 0]"

definition exampleWindow :: window where
  "exampleWindow = \<lparr>innerWidth = 1920, innerHeight = 1080\<rparr>"

text \<open>
  A left hand with the four fingers extended (tips above the PIP joints) and the thumb
  folded, and a detector result without hands.
\<close>

definition openHand :: "landmark list" where
  "openHand =
     [Landmark 0 0 0, Landmark 0 0 0, Landmark 0 0 0, Landmark 0 0 0, Landmark 0 0 0,
      Landmark 0 0 0, Landmark 0 (- 1 / 10) 0, Landmark 0 0 0, Landmark 0 (- 2 / 10) 0,
      Landmark (1 / 2) (1 / 2) 0, Landmark 0 (- 1 / 10) 0, Landmark 0 0 0, Landmark 0 (- 2 / 10) 0,
      Landmark 0 0 0, Landmark 0 (- 1 / 10) 0, Landmark 0 0 0, Landmark 0 (- 2 / 10) 0,
      Landmark 0 0 0, Landmark 0 (- 1 / 10) 0, Landmark 0 0 0, Landmark 0 (- 2 / 10) 0]"

definition noHands :: results where
  "noHands = \<lparr>multiHandLandmarks = None, multiHandedness = None\<rparr>"

text \<open>
  A configuration with two particles and a canvas of 6 by 2 pixels sampled every second
  pixel (three samples, all in the first row); the other values are those of
  \<^verbatim>\<open>CONFIG\<close>.
\<close>

definition exampleConfig :: config where
  "exampleConfig =
     CONFIG\<lparr>particleCount := 2, canvasWidth := 6, canvasHeight := 2, samplingStep := 2\<rparr>"

text \<open>
  A system of two particles, laid out as \<^verbatim>\<open>createGeometry\<close> does (the objects of
  particle \<open>i\<close> at the addresses \<open>3 * i\<close>, \<open>3 * i + 1\<close> and \<open>3 * i + 2\<close>): the
  first particle at (10, 0, 0) with its target at (20, 0, 0), the second at the origin.
\<close>

definition exampleSystem :: particleSystem where
  "exampleSystem =
     \<lparr> heap = (\<lambda>a. if a = 0 then Vector3 10 0 0 else if a = 2 then Vector3 20 0 0
                     else Vector3 0 0 0),
       nextAddr = 6, currentPositions = [0, 3], velocities = [1, 4],
       targetPositions = [2, 5], positions = [0, 0, 0, 0, 0, 0], colors = [1, 1, 1, 1, 1, 1] \<rparr>"

text \<open>The first theme of \<^verbatim>\<open>createThemes\<close>.\<close>

definition exampleTheme :: theme where
  "exampleTheme = \<lparr> name = ''Neon Cyan'', color1 = Color 0 1 1, color2 = Color (8 / 15) 0 1,
      themeText = ''Hello'' \<rparr>"

text \<open>
  A right hand at the origin, as a fist and neutral, and a source of draws that are all
  one half (no noise).
\<close>

definition fistAtOrigin :: interactionState where
  "fistAtOrigin = \<lparr> mode = 1, rightHandPos = Vector3 0 0 0, rightHandAction = ''fist'' \<rparr>"

definition neutralAtOrigin :: interactionState where
  "neutralAtOrigin = \<lparr> mode = 1, rightHandPos = Vector3 0 0 0, rightHandAction = ''neutral'' \<rparr>"

definition noNoise :: "nat \<Rightarrow> real" where
  "noNoise k = 1 / 2"

text \<open>
  The pixels of a canvas of 6 by 2, four bytes each: one with a single white pixel, the
  third of the first row, and one all white. And a source whose draws are all one
  quarter.
\<close>

definition exampleRender :: "string \<Rightarrow> nat list" where
  "exampleRender txt =
     [0, 0, 0, 255,  0, 0, 0, 255,  255, 255, 255, 255,  0, 0, 0, 255,
      0, 0, 0, 255,  0, 0, 0, 255,  0, 0, 0, 255,  0, 0, 0, 255,
      0, 0, 0, 255,  0, 0, 0, 255,  0, 0, 0, 255,  0, 0, 0, 255]"

definition whiteRender :: "string \<Rightarrow> nat list" where
  "whiteRender txt = replicate 48 255"

definition quarterSource :: "nat \<Rightarrow> real" where
  "quarterSource k = 1 / 4"

text \<open>The three points that sampling the white canvas gives.\<close>

definition threePoints :: "glyphPoint list" where
  "threePoints =
     [GlyphPoint (- 66 / 10) (22 / 10), GlyphPoint (- 22 / 10) (22 / 10),
      GlyphPoint (22 / 10) (22 / 10)]"

section \<open>Properties of the hand tracker\<close>

lemma dist2_same_x: "lm_x a = lm_x b \<Longrightarrow> dist2 a b = \<bar>lm_y a - lm_y b\<bar>"
  by (simp add: dist2_def)

lemma fistHand_length: "length (fistHand d) = 21"
  by (simp add: fistHand_def)

lemma fistHand_curled: "curledFingers (fistHand d) = 4"
  by (simp add: fistHand_def curledFingers_def)

lemma fistHand_tip: "avgTipToPipDist (fistHand d) = 3 / 100"
  by (simp add: fistHand_def avgTipToPipDist_def dist2_same_x)

lemma fistHand_avg: "0 \<le> d \<Longrightarrow> avgDist (fistHand d) = d"
  by (simp add: fistHand_def avgDist_def dist2_same_x)

lemma fistHand_position: "handPosition exampleWindow (fistHand d) = Vector3 0 0 0"
  by (simp add: handPosition_def fistHand_def exampleWindow_def)

text \<open>
  Claim C6. In the trackers with finger curl analysis (\<^verbatim>\<open>part_002\<close> and
  \<^verbatim>\<open>part_003\<close>), a right hand with four curled fingers and an average distance of
  0.03 between fingertips and PIP joints is a fist, whatever the average distance to the
  wrist and whatever the thresholds of the configuration.
\<close>

theorem fist_regardless_of_avgDist:
  assumes "20 < length lm" and "curledFingers lm = 4" and "avgTipToPipDist lm = 3 / 100"
  shows "processRightHand_part_002 cfg w st lm
           = Inr (st\<lparr>rightHandPos := handPosition w lm, rightHandAction := ''fist''\<rparr>)
       \<and> processRightHand_part_003 cfg w st lm
           = Inr (st\<lparr>rightHandPos := handPosition w lm, rightHandAction := ''fist''\<rparr>)"
  using assms
  by (simp add: processRightHand_part_002_def processRightHand_part_003_def isFist_def)

text \<open>
  The hand \<open>fistHand 1\<close> has its fingertips at distance 1 from the wrist, far above
  both thresholds, and is a fist all the same.
\<close>

theorem fist_regardless_of_avgDist_witness:
  "20 < length (fistHand 1) \<and> curledFingers (fistHand 1) = 4
   \<and> avgTipToPipDist (fistHand 1) = 3 / 100 \<and> avgDist (fistHand 1) = 1
   \<and> \<not> avgDist (fistHand 1) < fistThreshold CONFIG
   \<and> processRightHand_part_002 CONFIG exampleWindow initialInteractionState (fistHand 1)
      = Inr \<lparr>mode = 1, rightHandPos = Vector3 0 0 0, rightHandAction = ''fist''\<rparr>
   \<and> processRightHand_part_003 CONFIG exampleWindow initialInteractionState (fistHand 1)
      = Inr \<lparr>mode = 1, rightHandPos = Vector3 0 0 0, rightHandAction = ''fist''\<rparr>"
proof -
  have h1: "20 < length (fistHand 1)" by (simp add: fistHand_length)
  have h2: "curledFingers (fistHand 1) = 4" by (rule fistHand_curled)
  have h3: "avgTipToPipDist (fistHand 1) = 3 / 100" by (rule fistHand_tip)
  have h4: "avgDist (fistHand 1) = 1" by (simp add: fistHand_avg)
  show ?thesis
    using fist_regardless_of_avgDist [OF h1 h2 h3, of CONFIG exampleWindow
        initialInteractionState] h1 h2 h3 h4
    by (simp add: initialInteractionState_def CONFIG_def fistHand_position)
qed

text \<open>
  The tracker of \<^verbatim>\<open>src/core/HandTracker.js\<close> has no finger curl analysis: there the
  same hand, at distance 1 from the wrist, is an open hand.
\<close>

lemma processRightHand_distance_only:
  "processRightHand CONFIG exampleWindow initialInteractionState (fistHand 1)
     = Inr \<lparr>mode = 1, rightHandPos = Vector3 0 0 0, rightHandAction = ''open''\<rparr>"
  by (simp add: processRightHand_def fistHand_length fistHand_avg fistHand_position
      initialInteractionState_def CONFIG_def)

lemma processLeftHand_part_003_mode:
  "processLeftHand_part_003 st lm = Inr st' \<Longrightarrow>
   st' = st\<lparr>mode := (if 1 \<le> fingers_part_003 lm \<and> fingers_part_003 lm \<le> 5
                       then fingers_part_003 lm else mode st)\<rparr>"
  by (auto simp: processLeftHand_part_003_def Let_def split: if_splits)

lemma processRightHand_part_003_mode:
  "processRightHand_part_003 cfg w st lm = Inr st' \<Longrightarrow> mode st' = mode st"
  by (auto simp: processRightHand_part_003_def Let_def split: if_splits)

lemma processHands_mode_part_003:
  "processHands processLeftHand_part_003 (processRightHand_part_003 cfg w) lms hs st = Inr st'
   \<Longrightarrow> mode st' = mode st
       \<or> (\<exists>lm \<in> set (map fst (filter (\<lambda>(lm, h). h \<noteq> ''Right'') (zip lms hs))).
             1 \<le> fingers_part_003 lm \<and> fingers_part_003 lm \<le> 5
             \<and> fingers_part_003 lm \<noteq> mode st \<and> mode st' = fingers_part_003 lm)"
proof (induction processLeftHand_part_003 "processRightHand_part_003 cfg w" lms hs st
        rule: processHands.induct)
  case (1 hs st)
  then show ?case by simp
next
  case (2 lm lms st)
  then show ?case by simp
next
  case (3 lm lms h hs st)
  show ?case
  proof (cases "h \<noteq> ''Right''")
    case True
    note hright = this
    with "3.prems" obtain s1 where s1: "processLeftHand_part_003 st lm = Inr s1"
      and rest: "processHands processLeftHand_part_003 (processRightHand_part_003 cfg w) lms hs s1 = Inr st'"
      by (auto split: sum.splits)
    note m1 = processLeftHand_part_003_mode [OF s1]
    from "3.hyps" [of s1] True s1 rest
    have ih: "mode st' = mode s1
       \<or> (\<exists>lm \<in> set (map fst (filter (\<lambda>(lm, h). h \<noteq> ''Right'') (zip lms hs))).
             1 \<le> fingers_part_003 lm \<and> fingers_part_003 lm \<le> 5
             \<and> fingers_part_003 lm \<noteq> mode s1 \<and> mode st' = fingers_part_003 lm)"
      by simp
    show ?thesis
    proof (cases "mode st' = mode st")
      case True
      then show ?thesis by simp
    next
      case False
      from ih show ?thesis
      proof
        assume "mode st' = mode s1"
        with False m1 have "1 \<le> fingers_part_003 lm" "fingers_part_003 lm \<le> 5"
          "fingers_part_003 lm \<noteq> mode st" "mode st' = fingers_part_003 lm"
          by (auto split: if_splits)
        moreover from hright
        have "lm \<in> set (map fst (filter (\<lambda>(lm, h). h \<noteq> ''Right'') (zip (lm # lms) (h # hs))))"
          by simp
        ultimately show ?thesis by blast
      next
        assume "\<exists>lm \<in> set (map fst (filter (\<lambda>(lm, h). h \<noteq> ''Right'') (zip lms hs))).
             1 \<le> fingers_part_003 lm \<and> fingers_part_003 lm \<le> 5
             \<and> fingers_part_003 lm \<noteq> mode s1 \<and> mode st' = fingers_part_003 lm"
        then obtain lm' where in': "lm' \<in> set (map fst (filter (\<lambda>(lm, h). h \<noteq> ''Right'') (zip lms hs)))"
          and v: "1 \<le> fingers_part_003 lm'" "fingers_part_003 lm' \<le> 5"
          and e: "mode st' = fingers_part_003 lm'"
          by blast
        from in' hright
        have "lm' \<in> set (map fst (filter (\<lambda>(lm, h). h \<noteq> ''Right'') (zip (lm # lms) (h # hs))))"
          by simp
        moreover from e False have "fingers_part_003 lm' \<noteq> mode st" by simp
        ultimately show ?thesis using v e by blast
      qed
    qed
  next
    case False
    with "3.prems" obtain s1 where s1: "processRightHand_part_003 cfg w st lm = Inr s1"
      and rest: "processHands processLeftHand_part_003 (processRightHand_part_003 cfg w) lms hs s1 = Inr st'"
      by (auto split: sum.splits)
    note m1 = processRightHand_part_003_mode [OF s1]
    from "3.hyps" [of s1] False s1 rest m1 show ?thesis by simp
  qed
qed

lemma processResults_part_003_mode:
  assumes "processResults_part_003 cfg w st r = Inr st'"
  shows "mode st' = mode st
       \<or> (\<exists>lm \<in> set (leftHands r).
             1 \<le> fingers_part_003 lm \<and> fingers_part_003 lm \<le> 5
             \<and> fingers_part_003 lm \<noteq> mode st \<and> mode st' = fingers_part_003 lm)"
proof (cases "multiHandLandmarks r")
  case None
  with assms show ?thesis
    by (auto simp: processResults_part_003_def processResultsWith_def)
next
  case (Some lms)
  note lms = this
  show ?thesis
  proof (cases "multiHandedness r")
    case None
    with assms lms show ?thesis
      by (auto simp: processResults_part_003_def processResultsWith_def)
  next
    case (Some hs)
    with assms lms have
      "processHands processLeftHand_part_003 (processRightHand_part_003 cfg w) lms hs
         (st\<lparr>rightHandPos := Vector3 9999 9999 0, rightHandAction := ''neutral''\<rparr>) = Inr st'"
      by (simp add: processResults_part_003_def processResultsWith_def)
    from processHands_mode_part_003 [OF this] lms Some show ?thesis
      by (simp add: leftHands_def)
  qed
qed

lemma extended_four:
  assumes "lm_y (lm ! 8) < lm_y (lm ! 6)" "lm_y (lm ! 12) < lm_y (lm ! 10)"
          "lm_y (lm ! 16) < lm_y (lm ! 14)" "lm_y (lm ! 20) < lm_y (lm ! 18)"
  shows "extendedCount lm = 4"
  using assms by (simp add: extendedCount_def)

text \<open>
  Claim C5. In the tracker that counts up to five fingers (\<^verbatim>\<open>part_003\<close>), a left
  hand whose four non-thumb fingertips are above their PIP joints has a finger count of
  4 or 5, which is in the mode range 1..5; the count becomes the mode; and a later call
  of \<^verbatim>\<open>processResults\<close> leaves the mode at that count unless the result holds a left
  hand whose count is in the range and different, which then is the mode.
\<close>

theorem mode_commit:
  assumes "20 < length lm"
    and "lm_y (lm ! 8) < lm_y (lm ! 6)" and "lm_y (lm ! 12) < lm_y (lm ! 10)"
    and "lm_y (lm ! 16) < lm_y (lm ! 14)" and "lm_y (lm ! 20) < lm_y (lm ! 18)"
  shows "1 \<le> fingers_part_003 lm \<and> fingers_part_003 lm \<le> 5
     \<and> processLeftHand_part_003 st lm = Inr (st\<lparr>mode := fingers_part_003 lm\<rparr>)
     \<and> (\<forall>r st'. processResults_part_003 cfg w (st\<lparr>mode := fingers_part_003 lm\<rparr>) r = Inr st'
          \<longrightarrow> mode st' = fingers_part_003 lm
              \<or> (\<exists>lm' \<in> set (leftHands r).
                   1 \<le> fingers_part_003 lm' \<and> fingers_part_003 lm' \<le> 5
                   \<and> fingers_part_003 lm' \<noteq> fingers_part_003 lm
                   \<and> mode st' = fingers_part_003 lm'))"
proof -
  have range: "1 \<le> fingers_part_003 lm \<and> fingers_part_003 lm \<le> 5"
    using extended_four [OF assms(2-5)] by (simp add: fingers_part_003_def)
  have commit: "processLeftHand_part_003 st lm = Inr (st\<lparr>mode := fingers_part_003 lm\<rparr>)"
    using assms(1) range by (simp add: processLeftHand_part_003_def Let_def)
  have keep: "mode st' = fingers_part_003 lm
              \<or> (\<exists>lm' \<in> set (leftHands r).
                   1 \<le> fingers_part_003 lm' \<and> fingers_part_003 lm' \<le> 5
                   \<and> fingers_part_003 lm' \<noteq> fingers_part_003 lm
                   \<and> mode st' = fingers_part_003 lm')"
    if "processResults_part_003 cfg w (st\<lparr>mode := fingers_part_003 lm\<rparr>) r = Inr st'" for r st'
    using processResults_part_003_mode [OF that] by simp
  from range commit keep show ?thesis by blast
qed

lemma openHand_thumb: "\<not> thumbExtended openHand"
  by (simp add: thumbExtended_def openHand_def)

lemma openHand_fingers: "fingers_part_003 openHand = 4"
  by (simp add: fingers_part_003_def openHand_thumb extendedCount_def) (simp add: openHand_def)

theorem mode_commit_witness:
  "20 < length openHand
   \<and> lm_y (openHand ! 8) < lm_y (openHand ! 6) \<and> lm_y (openHand ! 12) < lm_y (openHand ! 10)
   \<and> lm_y (openHand ! 16) < lm_y (openHand ! 14) \<and> lm_y (openHand ! 20) < lm_y (openHand ! 18)
   \<and> fingers_part_003 openHand = 4
   \<and> processLeftHand_part_003 initialInteractionState openHand
       = Inr (initialInteractionState\<lparr>mode := 4\<rparr>)
   \<and> processResults_part_003 CONFIG exampleWindow (initialInteractionState\<lparr>mode := 4\<rparr>) noHands
       = Inr (initialInteractionState\<lparr>mode := 4\<rparr>)"
proof -
  have h1: "20 < length openHand" by (simp add: openHand_def)
  have h2: "lm_y (openHand ! 8) < lm_y (openHand ! 6)" by (simp add: openHand_def)
  have h3: "lm_y (openHand ! 12) < lm_y (openHand ! 10)" by (simp add: openHand_def)
  have h4: "lm_y (openHand ! 16) < lm_y (openHand ! 14)" by (simp add: openHand_def)
  have h5: "lm_y (openHand ! 20) < lm_y (openHand ! 18)" by (simp add: openHand_def)
  have h6: "processResults_part_003 CONFIG exampleWindow (initialInteractionState\<lparr>mode := 4\<rparr>) noHands
       = Inr (initialInteractionState\<lparr>mode := 4\<rparr>)"
    by (simp add: processResults_part_003_def processResultsWith_def noHands_def
        initialInteractionState_def)
  show ?thesis
    using mode_commit [OF h1 h2 h3 h4 h5, of initialInteractionState CONFIG exampleWindow]
      h1 h2 h3 h4 h5 h6
    by (simp add: openHand_fingers)
qed

text \<open>
  In \<^verbatim>\<open>src/core/HandTracker.js\<close> the range is 1..3: four extended fingers are
  outside it and the mode stays.
\<close>

lemma processLeftHand_four:
  assumes "20 < length lm"
    and "lm_y (lm ! 8) < lm_y (lm ! 6)" and "lm_y (lm ! 12) < lm_y (lm ! 10)"
    and "lm_y (lm ! 16) < lm_y (lm ! 14)" and "lm_y (lm ! 20) < lm_y (lm ! 18)"
  shows "processLeftHand st lm = Inr st"
  using assms(1) extended_four [OF assms(2-5)] by (simp add: processLeftHand_def)

text \<open>
  Claim C7, as amended. With \<open>fistThreshold \<le> openThreshold\<close> and an average
  distance equal to one of the two thresholds, neither comparison of the distance holds.
  In \<^verbatim>\<open>src/core/HandTracker.js\<close> the action is then neutral. In \<^verbatim>\<open>part_002\<close> the
  action is a fist when three fingers or more are curled and the tips are closer than
  0.08 to the PIP joints, and neutral otherwise.
\<close>

theorem threshold_boundary:
  assumes "20 < length lm" and "fistThreshold cfg \<le> openThreshold cfg"
    and "avgDist lm = fistThreshold cfg \<or> avgDist lm = openThreshold cfg"
  shows "\<not> avgDist lm < fistThreshold cfg \<and> \<not> avgDist lm > openThreshold cfg
     \<and> processRightHand cfg w st lm
         = Inr (st\<lparr>rightHandPos := handPosition w lm, rightHandAction := ''neutral''\<rparr>)
     \<and> processRightHand_part_002 cfg w st lm
         = Inr (st\<lparr>rightHandPos := handPosition w lm,
                   rightHandAction := (if curledFingers lm \<ge> 3 \<and> avgTipToPipDist lm < 8 / 100
                                       then ''fist'' else ''neutral'')\<rparr>)"
  using assms
  by (auto simp: processRightHand_def processRightHand_part_002_def isFist_def isOpen_def Let_def)

text \<open>
  The claim as stated fails in \<^verbatim>\<open>part_002\<close>: the hand \<open>fistHand d\<close> has four curled
  fingers, and at an average distance equal to either threshold it is a fist.
\<close>

theorem threshold_boundary_counterexample:
  "avgDist (fistHand (15 / 100)) = fistThreshold CONFIG
   \<and> processRightHand_part_002 CONFIG exampleWindow initialInteractionState (fistHand (15 / 100))
      = Inr \<lparr>mode = 1, rightHandPos = Vector3 0 0 0, rightHandAction = ''fist''\<rparr>
   \<and> avgDist (fistHand (28 / 100)) = openThreshold CONFIG
   \<and> processRightHand_part_002 CONFIG exampleWindow initialInteractionState (fistHand (28 / 100))
      = Inr \<lparr>mode = 1, rightHandPos = Vector3 0 0 0, rightHandAction = ''fist''\<rparr>"
  by (simp add: fistHand_avg CONFIG_def processRightHand_part_002_def isFist_def
      fistHand_length fistHand_curled fistHand_tip fistHand_position initialInteractionState_def)

theorem threshold_boundary_witness:
  "20 < length (fistHand (15 / 100)) \<and> fistThreshold CONFIG \<le> openThreshold CONFIG
   \<and> avgDist (fistHand (15 / 100)) = fistThreshold CONFIG
   \<and> processRightHand CONFIG exampleWindow initialInteractionState (fistHand (15 / 100))
      = Inr \<lparr>mode = 1, rightHandPos = Vector3 0 0 0, rightHandAction = ''neutral''\<rparr>
   \<and> processRightHand_part_002 CONFIG exampleWindow initialInteractionState (fistHand (15 / 100))
      = Inr \<lparr>mode = 1, rightHandPos = Vector3 0 0 0, rightHandAction = ''fist''\<rparr>"
proof -
  have h1: "20 < length (fistHand (15 / 100))" by (simp add: fistHand_length)
  have h2: "fistThreshold CONFIG \<le> openThreshold CONFIG" by (simp add: CONFIG_def)
  have h3: "avgDist (fistHand (15 / 100)) = fistThreshold CONFIG"
    by (simp add: fistHand_avg CONFIG_def)
  show ?thesis
    using threshold_boundary [OF h1 h2 disjI1 [OF h3], of exampleWindow initialInteractionState]
      h1 h2 h3
    by (simp add: fistHand_curled fistHand_tip fistHand_position initialInteractionState_def)
qed

section \<open>Properties of the particle system\<close>

subsection \<open>Construction\<close>

lemma built_empty: "built cfg 0 (emptySystem cfg)"
  by (simp add: built_def emptySystem_def)

lemma built_createParticle:
  assumes "built cfg k s"
  shows "built cfg (Suc k) (createParticle rnd k s)"
  using assms
  by (simp add: built_def createParticle_def newVector3_def Let_def)

lemma built_fold:
  "built cfg k (fold (createParticle rnd) [0..<k] (emptySystem cfg))"
proof (induction k)
  case 0
  show ?case by (simp add: built_empty)
next
  case (Suc k)
  then show ?case by (simp add: built_createParticle)
qed

lemma built_distinct:
  "distinct (map (\<lambda>i. 3 * i) [0..<k] @ map (\<lambda>i. 3 * i + 1) [0..<k]
             @ map (\<lambda>i. 3 * i + 2) [0..<k])"
proof -
  have d0: "distinct (map (\<lambda>i::nat. 3 * i) [0..<k])"
    by (simp add: distinct_map inj_on_def)
  have d1: "distinct (map (\<lambda>i::nat. 3 * i + 1) [0..<k])"
    by (simp add: distinct_map inj_on_def)
  have d2: "distinct (map (\<lambda>i::nat. 3 * i + 2) [0..<k])"
    by (simp add: distinct_map inj_on_def)
  have x: "3 * i \<noteq> 3 * j + 1" "3 * i \<noteq> 3 * j + 2" "3 * i + 1 \<noteq> 3 * j + 2" for i j :: nat
    by presburger+
  from d0 d1 d2 x show ?thesis by auto
qed

text \<open>The constructor builds a well-formed system, for every particle count.\<close>

lemma createGeometry_wellFormed: "wellFormed cfg (createGeometry cfg rnd)"
proof -
  have b: "built cfg (particleCount cfg) (createGeometry cfg rnd)"
    unfolding createGeometry_def by (rule built_fold)
  then show ?thesis
    unfolding wellFormed_def using built_distinct [of "particleCount cfg"]
    by (simp add: built_def)
qed

subsection \<open>The physics update\<close>

lemma handInteraction_handForce:
  "handInteraction cfg rhPos rhAction p v = vadd v (handForce cfg rhPos rhAction p)"
  by (simp add: handInteraction_def handForce_def vadd_def Let_def)

lemma updateParticle_explicit:
  assumes "i < length (currentPositions s)" "i < length (velocities s)"
    "i < length (targetPositions s)" "currentPositions s ! i \<noteq> velocities s ! i"
  shows "updateParticle cfg time th ist rnd i s =
     Inr (s\<lparr>heap := (heap s)
              (velocities s ! i := specVelocity cfg ist rnd i (heap s (currentPositions s ! i))
                   (heap s (velocities s ! i)) (heap s (targetPositions s ! i)),
               currentPositions s ! i := vadd (heap s (currentPositions s ! i))
                   (specVelocity cfg ist rnd i (heap s (currentPositions s ! i))
                   (heap s (velocities s ! i)) (heap s (targetPositions s ! i)))),
            colors := (colors s)
              [i * 3 := min 1 (col_r (tempColor cfg time th (rightHandPos ist) (heap s (currentPositions s ! i))) * (12 / 10)),
               i * 3 + 1 := min 1 (col_g (tempColor cfg time th (rightHandPos ist) (heap s (currentPositions s ! i))) * (12 / 10)),
               i * 3 + 2 := min 1 (col_b (tempColor cfg time th (rightHandPos ist) (heap s (currentPositions s ! i))) * (12 / 10))],
            positions := (positions s)
              [i * 3 := vec_x (vadd (heap s (currentPositions s ! i))
                   (specVelocity cfg ist rnd i (heap s (currentPositions s ! i))
                   (heap s (velocities s ! i)) (heap s (targetPositions s ! i)))),
               i * 3 + 1 := vec_y (vadd (heap s (currentPositions s ! i))
                   (specVelocity cfg ist rnd i (heap s (currentPositions s ! i))
                   (heap s (velocities s ! i)) (heap s (targetPositions s ! i)))),
               i * 3 + 2 := vec_z (vadd (heap s (currentPositions s ! i))
                   (specVelocity cfg ist rnd i (heap s (currentPositions s ! i))
                   (heap s (velocities s ! i)) (heap s (targetPositions s ! i))))]\<rparr>)"
  using assms
  by (simp add: updateParticle_def Let_def specVelocity_def handInteraction_handForce)

lemma wf_distinct:
  assumes "wellFormed cfg s" "i < particleCount cfg" "j < particleCount cfg"
  shows "currentPositions s ! i \<noteq> velocities s ! j"
    and "currentPositions s ! i \<noteq> targetPositions s ! j"
    and "velocities s ! i \<noteq> targetPositions s ! j"
    and "currentPositions s ! i = currentPositions s ! j \<longleftrightarrow> i = j"
    and "velocities s ! i = velocities s ! j \<longleftrightarrow> i = j"
    and "targetPositions s ! i = targetPositions s ! j \<longleftrightarrow> i = j"
proof -
  from assms have len: "i < length (currentPositions s)" "j < length (currentPositions s)"
      "i < length (velocities s)" "j < length (velocities s)"
      "i < length (targetPositions s)" "j < length (targetPositions s)"
    by (simp_all add: wellFormed_def)
  from assms(1) have all: "distinct (currentPositions s @ velocities s @ targetPositions s)"
    by (simp add: wellFormed_def)
  from all have d1: "distinct (currentPositions s)" by simp
  from all have d2: "distinct (velocities s)" by simp
  from all have d3: "distinct (targetPositions s)" by simp
  from all have x1: "\<And>a. a \<in> set (currentPositions s) \<Longrightarrow> a \<notin> set (velocities s)"
    by (simp add: disjoint_iff)
  from all have x2: "\<And>a. a \<in> set (currentPositions s) \<Longrightarrow> a \<notin> set (targetPositions s)"
    by (simp add: disjoint_iff)
  from all have x3: "\<And>a. a \<in> set (velocities s) \<Longrightarrow> a \<notin> set (targetPositions s)"
    by (simp add: disjoint_iff)
  have m1: "currentPositions s ! i \<in> set (currentPositions s)" using len(1) by simp
  have m2: "velocities s ! i \<in> set (velocities s)" using len(3) by simp
  have m3: "velocities s ! j \<in> set (velocities s)" using len(4) by simp
  have m4: "targetPositions s ! j \<in> set (targetPositions s)" using len(6) by simp
  from x1 [OF m1] m3 show "currentPositions s ! i \<noteq> velocities s ! j" by metis
  from x2 [OF m1] m4 show "currentPositions s ! i \<noteq> targetPositions s ! j" by metis
  from x3 [OF m2] m4 show "velocities s ! i \<noteq> targetPositions s ! j" by metis
  from len(1,2) d1 show "currentPositions s ! i = currentPositions s ! j \<longleftrightarrow> i = j"
    by (simp add: nth_eq_iff_index_eq)
  from len(3,4) d2 show "velocities s ! i = velocities s ! j \<longleftrightarrow> i = j"
    by (simp add: nth_eq_iff_index_eq)
  from len(5,6) d3 show "targetPositions s ! i = targetPositions s ! j \<longleftrightarrow> i = j"
    by (simp add: nth_eq_iff_index_eq)
qed

lemma sameShape_wellFormed: "sameShape s s' \<Longrightarrow> wellFormed cfg s \<Longrightarrow> wellFormed cfg s'"
  by (simp add: sameShape_def wellFormed_def)

lemma sameShape_refl: "sameShape s s"
  by (simp add: sameShape_def)

lemma sameShape_trans: "sameShape s s1 \<Longrightarrow> sameShape s1 s' \<Longrightarrow> sameShape s s'"
  by (simp add: sameShape_def)

lemma div3_cases: "j div 3 \<noteq> i \<Longrightarrow> j \<noteq> i * 3 \<and> j \<noteq> i * 3 + 1 \<and> j \<noteq> i * 3 + 2"
  for i j :: nat
  by auto

lemma updateParticle_step:
  assumes wf: "wellFormed cfg s" and i: "i < particleCount cfg"
  shows "\<exists>s'. updateParticle cfg time th ist rnd i s = Inr s' \<and> sameShape s s'
           \<and> particleStep cfg time th ist rnd i s s' \<and> untouched [i] s s'"
proof -
  from wf i have len: "i < length (currentPositions s)" "i < length (velocities s)"
      "i < length (targetPositions s)"
      "i * 3 + 2 < length (positions s)" "i * 3 + 2 < length (colors s)"
    by (simp_all add: wellFormed_def)
  note ne = wf_distinct(1-3) [OF wf i i]
  define pa where "pa = currentPositions s ! i"
  define va where "va = velocities s ! i"
  define ta where "ta = targetPositions s ! i"
  define v' where "v' = specVelocity cfg ist rnd i (heap s pa) (heap s va) (heap s ta)"
  define p' where "p' = vadd (heap s pa) v'"
  define c where "c = tempColor cfg time th (rightHandPos ist) (heap s pa)"
  define s' where "s' = s\<lparr>heap := (heap s)(va := v', pa := p'),
      colors := (colors s)[i * 3 := min 1 (col_r c * (12 / 10)),
         i * 3 + 1 := min 1 (col_g c * (12 / 10)), i * 3 + 2 := min 1 (col_b c * (12 / 10))],
      positions := (positions s)[i * 3 := vec_x p', i * 3 + 1 := vec_y p',
         i * 3 + 2 := vec_z p']\<rparr>"
  have r: "updateParticle cfg time th ist rnd i s = Inr s'"
    unfolding s'_def p'_def v'_def c_def pa_def va_def ta_def
    by (rule updateParticle_explicit [OF len(1-3) ne(1)])
  have sh: "sameShape s s'"
    by (simp add: sameShape_def s'_def)
  from ne have ne': "pa \<noteq> va" "pa \<noteq> ta" "va \<noteq> ta"
    by (simp_all add: pa_def va_def ta_def)
  have hv: "heap s' va = v'" using ne' by (simp add: s'_def)
  have hp: "heap s' pa = p'" by (simp add: s'_def)
  have ht: "heap s' ta = heap s ta" using ne' by (simp add: s'_def)
  have ps: "positions s' ! (i * 3) = vec_x p'" "positions s' ! (i * 3 + 1) = vec_y p'"
    "positions s' ! (i * 3 + 2) = vec_z p'"
    using len(4) by (simp_all add: s'_def)
  have cs: "colors s' ! (i * 3) = min 1 (col_r c * (12 / 10))"
    "colors s' ! (i * 3 + 1) = min 1 (col_g c * (12 / 10))"
    "colors s' ! (i * 3 + 2) = min 1 (col_b c * (12 / 10))"
    using len(5) by (simp_all add: s'_def)
  have st: "particleStep cfg time th ist rnd i s s'"
    unfolding particleStep_def Let_def
    using hv hp ht ps cs
    by (simp add: pa_def va_def ta_def v'_def p'_def c_def)
  have un1: "heap s' a = heap s a" if "a \<noteq> pa" "a \<noteq> va" for a
    using that by (simp add: s'_def)
  have un2: "positions s' ! j = positions s ! j \<and> colors s' ! j = colors s ! j"
    if "j div 3 \<noteq> i" for j
    using div3_cases [OF that] by (simp add: s'_def)
  have un: "untouched [i] s s'"
    unfolding untouched_def using un1 un2 by (simp add: pa_def va_def)
  from r sh st un show ?thesis by blast
qed

lemma particleStep_cong:
  assumes "currentPositions t = currentPositions s" "velocities t = velocities s"
    "targetPositions t = targetPositions s"
    "heap t (currentPositions s ! i) = heap s (currentPositions s ! i)"
    "heap t (velocities s ! i) = heap s (velocities s ! i)"
    "heap t (targetPositions s ! i) = heap s (targetPositions s ! i)"
    "heap t' (currentPositions s ! i) = heap s' (currentPositions s ! i)"
    "heap t' (velocities s ! i) = heap s' (velocities s ! i)"
    "heap t' (targetPositions s ! i) = heap s' (targetPositions s ! i)"
    "positions t' ! (i * 3) = positions s' ! (i * 3)"
    "positions t' ! (i * 3 + 1) = positions s' ! (i * 3 + 1)"
    "positions t' ! (i * 3 + 2) = positions s' ! (i * 3 + 2)"
    "colors t' ! (i * 3) = colors s' ! (i * 3)"
    "colors t' ! (i * 3 + 1) = colors s' ! (i * 3 + 1)"
    "colors t' ! (i * 3 + 2) = colors s' ! (i * 3 + 2)"
  shows "particleStep cfg time th ist rnd i t t' = particleStep cfg time th ist rnd i s s'"
  unfolding particleStep_def Let_def using assms by simp

lemma untouched_heap:
  assumes "untouched is s s'" "\<And>i. i \<in> set is \<Longrightarrow> a \<noteq> currentPositions s ! i"
    "\<And>i. i \<in> set is \<Longrightarrow> a \<noteq> velocities s ! i"
  shows "heap s' a = heap s a"
  using assms unfolding untouched_def by blast

lemma untouched_buffers:
  assumes "untouched is s s'" "j div 3 \<notin> set is"
  shows "positions s' ! j = positions s ! j" "colors s' ! j = colors s ! j"
  using assms unfolding untouched_def by blast+

lemma updateLoop_result:
  assumes "wellFormed cfg s" "distinct is" "\<And>i. i \<in> set is \<Longrightarrow> i < particleCount cfg"
  shows "\<exists>s'. updateLoop cfg time th ist rnd is s = Inr s' \<and> sameShape s s'
           \<and> (\<forall>i \<in> set is. particleStep cfg time th ist rnd i s s') \<and> untouched is s s'"
  using assms
proof (induction "is" arbitrary: s)
  case Nil
  show ?case by (simp add: sameShape_refl untouched_def)
next
  case (Cons i "is")
  have i: "i < particleCount cfg" using Cons.prems(3) by simp
  have rest: "\<And>j. j \<in> set is \<Longrightarrow> j < particleCount cfg" using Cons.prems(3) by simp
  have fresh: "i \<notin> set is" and dis: "distinct is" using Cons.prems(2) by simp_all
  note wf = Cons.prems(1)
  from updateParticle_step [OF wf i, of time th ist rnd]
  obtain s1 where r1: "updateParticle cfg time th ist rnd i s = Inr s1"
    and sh1: "sameShape s s1" and st1: "particleStep cfg time th ist rnd i s s1"
    and un1: "untouched [i] s s1"
    by blast
  have wf1: "wellFormed cfg s1" by (rule sameShape_wellFormed [OF sh1 wf])
  from Cons.IH [OF wf1 dis rest]
  obtain s' where r2: "updateLoop cfg time th ist rnd is s1 = Inr s'"
    and sh2: "sameShape s1 s'"
    and st2: "\<And>j. j \<in> set is \<Longrightarrow> particleStep cfg time th ist rnd j s1 s'"
    and un2: "untouched is s1 s'"
    by blast
  from sh1 have arr: "currentPositions s1 = currentPositions s" "velocities s1 = velocities s"
    "targetPositions s1 = targetPositions s"
    by (simp_all add: sameShape_def)
  have r: "updateLoop cfg time th ist rnd (i # is) s = Inr s'"
    using r1 r2 by simp
  have sh: "sameShape s s'" by (rule sameShape_trans [OF sh1 sh2])
  have late: "heap s' a = heap s1 a"
    if "a = currentPositions s ! i \<or> a = velocities s ! i \<or> a = targetPositions s ! i" for a
  proof (rule untouched_heap [OF un2])
    fix j assume j: "j \<in> set is"
    with fresh have ne: "j \<noteq> i" by blast
    note d = wf_distinct [OF wf i rest [OF j]] wf_distinct [OF wf rest [OF j] i]
    from that d ne show "a \<noteq> currentPositions s1 ! j" unfolding arr by metis
    from that d ne show "a \<noteq> velocities s1 ! j" unfolding arr by metis
  qed
  have div_i: "(i * 3) div 3 = i" "(i * 3 + 1) div 3 = i" "(i * 3 + 2) div 3 = i"
    by simp_all
  have step_i: "particleStep cfg time th ist rnd i s s'"
  proof -
    have ni: "(i * 3) div 3 \<notin> set is" "(i * 3 + 1) div 3 \<notin> set is"
      "(i * 3 + 2) div 3 \<notin> set is"
      unfolding div_i using fresh by simp_all
    have "particleStep cfg time th ist rnd i s s' = particleStep cfg time th ist rnd i s s1"
      by (rule particleStep_cong [OF refl refl refl refl refl refl
            late late late
            untouched_buffers(1) [OF un2 ni(1)] untouched_buffers(1) [OF un2 ni(2)]
            untouched_buffers(1) [OF un2 ni(3)]
            untouched_buffers(2) [OF un2 ni(1)] untouched_buffers(2) [OF un2 ni(2)]
            untouched_buffers(2) [OF un2 ni(3)]]) simp_all
    with st1 show ?thesis by simp
  qed
  have early: "heap s1 a = heap s a"
    if "j \<in> set is"
      "a = currentPositions s ! j \<or> a = velocities s ! j \<or> a = targetPositions s ! j" for a j
  proof (rule untouched_heap [OF un1])
    fix k assume "k \<in> set [i]"
    then have k: "k = i" by simp
    from that(1) fresh have ne: "j \<noteq> i" by blast
    note d = wf_distinct [OF wf i rest [OF that(1)]] wf_distinct [OF wf rest [OF that(1)] i]
    from that(2) d ne show "a \<noteq> currentPositions s ! k" unfolding k by metis
    from that(2) d ne show "a \<noteq> velocities s ! k" unfolding k by metis
  qed
  have step_j: "particleStep cfg time th ist rnd j s s'" if "j \<in> set is" for j
  proof -
    have "particleStep cfg time th ist rnd j s1 s' = particleStep cfg time th ist rnd j s s'"
      by (rule particleStep_cong) (simp_all add: arr early [OF that])
    with st2 [OF that] show ?thesis by simp
  qed
  have un: "untouched (i # is) s s'"
    unfolding untouched_def
  proof (intro conjI allI impI)
    fix a
    assume a: "a \<notin> (\<lambda>i. currentPositions s ! i) ` set (i # is)"
      "a \<notin> (\<lambda>i. velocities s ! i) ` set (i # is)"
    have "heap s' a = heap s1 a"
      by (rule untouched_heap [OF un2]) (use a arr in auto)
    also have "heap s1 a = heap s a"
      by (rule untouched_heap [OF un1]) (use a in auto)
    finally show "heap s' a = heap s a" .
  next
    fix j :: nat assume j: "j div 3 \<notin> set (i # is)"
    then have j1: "j div 3 \<notin> set is" and j2: "j div 3 \<notin> set [i]" by simp_all
    show "positions s' ! j = positions s ! j"
      using untouched_buffers(1) [OF un2 j1] untouched_buffers(1) [OF un1 j2] by simp
    show "colors s' ! j = colors s ! j"
      using untouched_buffers(2) [OF un2 j1] untouched_buffers(2) [OF un1 j2] by simp
  qed
  from r sh step_i step_j un show ?case by auto
qed

lemma update_result:
  assumes "wellFormed cfg s"
  shows "\<exists>s'. update cfg time th ist rnd s = Inr s' \<and> sameShape s s'
           \<and> (\<forall>i < particleCount cfg. particleStep cfg time th ist rnd i s s')"
  using updateLoop_result [OF assms, of "[0..<particleCount cfg]" time th ist rnd]
  by (auto simp: update_def)

text \<open>\<^verbatim>\<open>update\<close> keeps the system well-formed.\<close>

lemma update_wellFormed:
  assumes "wellFormed cfg s"
  shows "\<exists>s'. update cfg time th ist rnd s = Inr s' \<and> wellFormed cfg s'"
  using update_result [OF assms, of time th ist rnd] sameShape_wellFormed [OF _ assms]
  by blast

text \<open>
  Claim C1. In a well-formed system \<^verbatim>\<open>update\<close> returns, and for every particle the
  new velocity is the friction times the sum of the old velocity, the return force
  \<open>(target - position) * returnSpeed\<close>, the noise and the hand force; the new position is
  the old position plus the new velocity; and the three slots of the particle in the
  position buffer hold the new position.
\<close>

theorem update_velocity_position:
  assumes "wellFormed cfg s" and "i < particleCount cfg"
  shows "\<exists>s'. update cfg time th ist rnd s = Inr s'
     \<and> heap s' (velocities s ! i)
         = vscale (vadd (vadd (vadd (heap s (velocities s ! i))
                                    (returnForce cfg (heap s (targetPositions s ! i))
                                                     (heap s (currentPositions s ! i))))
                              (noise rnd i))
                        (handForce cfg (rightHandPos ist) (rightHandAction ist)
                                   (heap s (currentPositions s ! i))))
                  (friction cfg)
     \<and> heap s' (currentPositions s ! i)
         = vadd (heap s (currentPositions s ! i)) (heap s' (velocities s ! i))
     \<and> positions s' ! (i * 3) = vec_x (heap s' (currentPositions s ! i))
     \<and> positions s' ! (i * 3 + 1) = vec_y (heap s' (currentPositions s ! i))
     \<and> positions s' ! (i * 3 + 2) = vec_z (heap s' (currentPositions s ! i))"
proof -
  from update_result [OF assms(1), of time th ist rnd] assms(2)
  obtain s' where r: "update cfg time th ist rnd s = Inr s'"
    and st: "particleStep cfg time th ist rnd i s s'"
    by blast
  from st have "heap s' (velocities s ! i)
         = vscale (vadd (vadd (vadd (heap s (velocities s ! i))
                                    (returnForce cfg (heap s (targetPositions s ! i))
                                                     (heap s (currentPositions s ! i))))
                              (noise rnd i))
                        (handForce cfg (rightHandPos ist) (rightHandAction ist)
                                   (heap s (currentPositions s ! i))))
                  (friction cfg)"
    and "heap s' (currentPositions s ! i)
         = vadd (heap s (currentPositions s ! i)) (heap s' (velocities s ! i))"
    and "positions s' ! (i * 3) = vec_x (heap s' (currentPositions s ! i))"
    and "positions s' ! (i * 3 + 1) = vec_y (heap s' (currentPositions s ! i))"
    and "positions s' ! (i * 3 + 2) = vec_z (heap s' (currentPositions s ! i))"
    by (simp_all add: particleStep_def Let_def specVelocity_def)
  with r show ?thesis by blast
qed

lemma exampleSystem_wellFormed: "wellFormed exampleConfig exampleSystem"
  by (simp add: wellFormed_def exampleConfig_def exampleSystem_def CONFIG_def)

lemma example_handForce:
  "handForce exampleConfig (Vector3 0 0 0) ''fist'' (Vector3 10 0 0) = Vector3 (- 60) (- 1 / 2) 0"
  by (simp add: handForce_def handInteraction_def exampleConfig_def CONFIG_def Let_def)

theorem update_velocity_position_witness:
  "wellFormed exampleConfig exampleSystem \<and> (0::nat) < particleCount exampleConfig
   \<and> (\<exists>s'. update exampleConfig 0 exampleTheme fistAtOrigin noNoise exampleSystem = Inr s'
        \<and> heap s' 1 = Vector3 (- 54096 / 1000) (- 46 / 100) 0
        \<and> heap s' 0 = Vector3 (- 44096 / 1000) (- 46 / 100) 0
        \<and> positions s' ! 0 = - 44096 / 1000 \<and> positions s' ! 1 = - 46 / 100
        \<and> positions s' ! 2 = 0)"
proof -
  have h2: "(0::nat) < particleCount exampleConfig"
    by (simp add: exampleConfig_def)
  have v: "vscale (vadd (vadd (vadd (heap exampleSystem (velocities exampleSystem ! 0))
              (returnForce exampleConfig (heap exampleSystem (targetPositions exampleSystem ! 0))
                 (heap exampleSystem (currentPositions exampleSystem ! 0))))
              (noise noNoise 0))
              (handForce exampleConfig (rightHandPos fistAtOrigin) (rightHandAction fistAtOrigin)
                 (heap exampleSystem (currentPositions exampleSystem ! 0))))
              (friction exampleConfig) = Vector3 (- 54096 / 1000) (- 46 / 100) 0"
    by (simp add: exampleSystem_def fistAtOrigin_def example_handForce returnForce_def
        noise_def noNoise_def vadd_def vscale_def)
       (simp add: exampleConfig_def CONFIG_def)
  from update_velocity_position [OF exampleSystem_wellFormed h2, of 0 exampleTheme
        fistAtOrigin noNoise]
  obtain s' where r: "update exampleConfig 0 exampleTheme fistAtOrigin noNoise exampleSystem = Inr s'"
    and hv: "heap s' (velocities exampleSystem ! 0) = Vector3 (- 54096 / 1000) (- 46 / 100) 0"
    and hp: "heap s' (currentPositions exampleSystem ! 0)
         = vadd (heap exampleSystem (currentPositions exampleSystem ! 0))
                (heap s' (velocities exampleSystem ! 0))"
    and ps: "positions s' ! (0 * 3) = vec_x (heap s' (currentPositions exampleSystem ! 0))"
       "positions s' ! (0 * 3 + 1) = vec_y (heap s' (currentPositions exampleSystem ! 0))"
       "positions s' ! (0 * 3 + 2) = vec_z (heap s' (currentPositions exampleSystem ! 0))"
    unfolding v by blast
  have v1: "heap s' 1 = Vector3 (- 54096 / 1000) (- 46 / 100) 0"
    using hv by (simp add: exampleSystem_def)
  have p0: "heap s' 0 = Vector3 (- 44096 / 1000) (- 46 / 100) 0"
    using hp unfolding hv by (simp add: exampleSystem_def vadd_def)
  have "positions s' ! 0 = - 44096 / 1000" "positions s' ! 1 = - 46 / 100" "positions s' ! 2 = 0"
    using ps p0 by (simp_all add: exampleSystem_def numeral_2_eq_2)
  with r v1 p0 exampleSystem_wellFormed h2 show ?thesis by blast
qed

lemma lerp_channel_bounds:
  fixes a b m :: real
  assumes "0 \<le> a" "a \<le> 1" "0 \<le> b" "b \<le> 1" "0 \<le> m" "m \<le> 1"
  shows "0 \<le> a + (b - a) * m \<and> a + (b - a) * m \<le> 1"
proof -
  have e: "a + (b - a) * m = (1 - m) * a + m * b" by algebra
  have n1: "0 \<le> (1 - m) * a" and n2: "0 \<le> m * b" using assms by simp_all
  have "(1 - m) * a \<le> (1 - m) * 1"
    by (rule mult_left_mono) (use assms in simp_all)
  then have u1: "(1 - m) * a \<le> 1 - m" by simp
  have "m * b \<le> m * 1"
    by (rule mult_left_mono) (use assms in simp_all)
  then have u2: "m * b \<le> m" by simp
  have lo: "0 \<le> (1 - m) * a + m * b" by (rule add_nonneg_nonneg [OF n1 n2])
  have "(1 - m) * a + m * b \<le> (1 - m) + m" by (rule add_mono [OF u1 u2])
  then have hi: "(1 - m) * a + m * b \<le> 1" by simp
  from lo hi show ?thesis unfolding e by simp
qed

lemma mixRatio_bounds: "0 \<le> mixRatio time p \<and> mixRatio time p \<le> 1"
proof -
  define x where "x = time * (15 / 10) + vec_x p * (15 / 10000)"
  have "0 \<le> sin x + 1" using sin_ge_minus_one [of x] by linarith
  moreover have "sin x + 1 \<le> 2" using sin_le_one [of x] by linarith
  ultimately have "0 \<le> (sin x + 1) / 2 \<and> (sin x + 1) / 2 \<le> 1" by simp
  then show ?thesis unfolding mixRatio_def x_def .
qed

lemma lerp_valid:
  assumes "validColor c" "validColor d" "0 \<le> m" "m \<le> 1"
  shows "validColor (lerp c d m)"
  using assms lerp_channel_bounds [of "col_r c" "col_r d" m]
    lerp_channel_bounds [of "col_g c" "col_g d" m] lerp_channel_bounds [of "col_b c" "col_b d" m]
  by (simp add: validColor_def lerp_def)

lemma distanceTo_nonneg: "0 \<le> distanceTo a b"
  by (simp add: distanceTo_def)

lemma tempColor_nonneg:
  assumes "validColor (color1 th)" "validColor (color2 th)"
  shows "0 \<le> col_r (tempColor cfg time th rhPos p) \<and> 0 \<le> col_g (tempColor cfg time th rhPos p)
       \<and> 0 \<le> col_b (tempColor cfg time th rhPos p)"
proof -
  define c where "c = lerp (color1 th) (color2 th) (mixRatio time p)"
  have vc: "validColor c"
    unfolding c_def using assms mixRatio_bounds [of time p] by (simp add: lerp_valid)
  show ?thesis
  proof (cases "vec_x rhPos \<noteq> 9999 \<and> distanceTo p rhPos < handInfluenceRadius cfg")
    case False
    with vc show ?thesis
      by (auto simp: tempColor_def Let_def c_def [symmetric] validColor_def)
  next
    case True
    define R where "R = handInfluenceRadius cfg"
    define d where "d = distanceTo p rhPos"
    define a where "a = (1 - d / R) * (9 / 10)"
    from True have dR: "d < R" by (simp add: d_def R_def)
    have d0: "0 \<le> d" by (simp add: d_def distanceTo_nonneg)
    from dR d0 have R0: "0 < R" by simp
    define q where "q = d / R"
    from d0 dR R0 have q: "0 \<le> q" "q \<le> 1" by (simp_all add: q_def)
    have "a = (1 - q) * (9 / 10)" by (simp add: a_def q_def)
    with q have a: "0 \<le> a" "a \<le> 1" by simp_all
    have vw: "validColor (Color 1 1 1)" by (simp add: validColor_def)
    have vl: "validColor (lerp c (Color 1 1 1) a)"
      by (rule lerp_valid [OF vc vw a])
    have "tempColor cfg time th rhPos p
        = Color (col_r (lerp c (Color 1 1 1) a) * (12 / 10))
                (col_g (lerp c (Color 1 1 1) a) * (12 / 10))
                (col_b (lerp c (Color 1 1 1) a) * (12 / 10))"
      using True by (simp add: tempColor_def Let_def c_def a_def d_def R_def)
    with vl show ?thesis by (simp add: validColor_def)
  qed
qed

text \<open>
  Claim C9. With theme colours whose channels are between 0 and 1, after \<^verbatim>\<open>update\<close>
  every channel of every particle in the colour buffer is between 0 and 1, for every
  interaction state.
\<close>

theorem colors_in_unit_interval:
  assumes "wellFormed cfg s" and "validColor (color1 th)" and "validColor (color2 th)"
  shows "\<exists>s'. update cfg time th ist rnd s = Inr s'
     \<and> (\<forall>i < particleCount cfg. \<forall>c < 3.
           0 \<le> colors s' ! (i * 3 + c) \<and> colors s' ! (i * 3 + c) \<le> 1)"
proof -
  from update_result [OF assms(1), of time th ist rnd]
  obtain s' where r: "update cfg time th ist rnd s = Inr s'"
    and st: "\<And>i. i < particleCount cfg \<Longrightarrow> particleStep cfg time th ist rnd i s s'"
    by blast
  have "0 \<le> colors s' ! (i * 3 + c) \<and> colors s' ! (i * 3 + c) \<le> 1"
    if i: "i < particleCount cfg" and c: "c < 3" for i c :: nat
  proof -
    note nn = tempColor_nonneg [OF assms(2,3), of cfg time "rightHandPos ist"
        "heap s (currentPositions s ! i)"]
    from st [OF i] have cs: "colors s' ! (i * 3) = min 1 (col_r (tempColor cfg time th (rightHandPos ist) (heap s (currentPositions s ! i))) * (12 / 10))"
      "colors s' ! (i * 3 + 1) = min 1 (col_g (tempColor cfg time th (rightHandPos ist) (heap s (currentPositions s ! i))) * (12 / 10))"
      "colors s' ! (i * 3 + 2) = min 1 (col_b (tempColor cfg time th (rightHandPos ist) (heap s (currentPositions s ! i))) * (12 / 10))"
      by (simp_all add: particleStep_def Let_def)
    from c have "c = 0 \<or> c = 1 \<or> c = 2" by arith
    then show ?thesis using cs nn by auto
  qed
  with r show ?thesis by blast
qed

text \<open>
  Claim C10. \<^verbatim>\<open>update\<close> leaves the targets as they are: the array holds the same
  objects, and the objects hold the same values.
\<close>

theorem update_keeps_targets:
  assumes "wellFormed cfg s"
  shows "\<exists>s'. update cfg time th ist rnd s = Inr s'
     \<and> targetPositions s' = targetPositions s
     \<and> map (heap s') (targetPositions s') = map (heap s) (targetPositions s)"
proof -
  from update_result [OF assms, of time th ist rnd]
  obtain s' where r: "update cfg time th ist rnd s = Inr s'" and sh: "sameShape s s'"
    and st: "\<And>i. i < particleCount cfg \<Longrightarrow> particleStep cfg time th ist rnd i s s'"
    by blast
  from sh have t: "targetPositions s' = targetPositions s" by (simp add: sameShape_def)
  have "heap s' a = heap s a" if "a \<in> set (targetPositions s)" for a
  proof -
    from that obtain i where i: "i < length (targetPositions s)" and a: "a = targetPositions s ! i"
      by (auto simp: in_set_conv_nth)
    from i assms have "i < particleCount cfg" by (simp add: wellFormed_def)
    from st [OF this] show ?thesis by (simp add: particleStep_def Let_def a)
  qed
  then have "map (heap s') (targetPositions s) = map (heap s) (targetPositions s)"
    by simp
  with r t show ?thesis by simp
qed

lemma handForce_sentinel: "vec_x rhPos = 9999 \<Longrightarrow> handForce cfg rhPos a p = Vector3 0 0 0"
  by (simp add: handForce_def handInteraction_def)

lemma tempColor_sentinel:
  "vec_x rhPos = 9999 \<Longrightarrow> tempColor cfg time th rhPos p = lerp (color1 th) (color2 th) (mixRatio time p)"
  by (simp add: tempColor_def)

lemma vadd_zero: "vadd v (Vector3 0 0 0) = v"
  by (simp add: vadd_def)

lemma processResultsWith_no_hands:
  assumes "handCount r = 0"
  shows "processResultsWith left right st r
         = Inr (st\<lparr>rightHandPos := Vector3 9999 9999 0, rightHandAction := ''neutral''\<rparr>)"
  using assms
  by (auto simp: processResultsWith_def handCount_def Let_def split: option.splits)

text \<open>
  Claim C4. For a detector result without hands, \<^verbatim>\<open>processResults\<close> (whatever
  handlers of the left and right hand the variant of the tracker has) gives the neutral
  action and the sentinel position and keeps the mode; a second call on the state it
  gives changes nothing. An \<^verbatim>\<open>update\<close> that reads this state gives every particle the
  velocity without a hand force, and the colour of the colour animation alone.
\<close>

theorem no_hands_no_hand_effect:
  assumes "handCount r = 0" and "wellFormed cfg s" and "i < particleCount cfg"
    and "st0 = st\<lparr>rightHandPos := Vector3 9999 9999 0, rightHandAction := ''neutral''\<rparr>"
  shows "processResultsWith left right st r = Inr st0
     \<and> processResultsWith left right st0 r = Inr st0
     \<and> mode st0 = mode st
     \<and> (\<exists>s'. update cfg time th st0 rnd s = Inr s'
          \<and> heap s' (velocities s ! i)
              = vscale (vadd (vadd (heap s (velocities s ! i))
                                   (returnForce cfg (heap s (targetPositions s ! i))
                                                    (heap s (currentPositions s ! i))))
                             (noise rnd i))
                       (friction cfg)
          \<and> colors s' ! (i * 3)
              = min 1 (col_r (lerp (color1 th) (color2 th)
                                (mixRatio time (heap s (currentPositions s ! i)))) * (12 / 10))
          \<and> colors s' ! (i * 3 + 1)
              = min 1 (col_g (lerp (color1 th) (color2 th)
                                (mixRatio time (heap s (currentPositions s ! i)))) * (12 / 10))
          \<and> colors s' ! (i * 3 + 2)
              = min 1 (col_b (lerp (color1 th) (color2 th)
                                (mixRatio time (heap s (currentPositions s ! i)))) * (12 / 10)))"
proof -
  have a: "processResultsWith left right st r = Inr st0"
    unfolding assms(4) by (rule processResultsWith_no_hands [OF assms(1)])
  have b: "processResultsWith left right st0 r = Inr st0"
    using processResultsWith_no_hands [OF assms(1), of left right st0] by (simp add: assms(4))
  have c: "mode st0 = mode st" by (simp add: assms(4))
  have x: "vec_x (rightHandPos st0) = 9999" by (simp add: assms(4))
  from update_result [OF assms(2), of time th st0 rnd] assms(3)
  obtain s' where r: "update cfg time th st0 rnd s = Inr s'"
    and stp: "particleStep cfg time th st0 rnd i s s'"
    by blast
  from stp have "heap s' (velocities s ! i)
              = vscale (vadd (vadd (heap s (velocities s ! i))
                                   (returnForce cfg (heap s (targetPositions s ! i))
                                                    (heap s (currentPositions s ! i))))
                             (noise rnd i))
                       (friction cfg)"
    and "colors s' ! (i * 3)
              = min 1 (col_r (lerp (color1 th) (color2 th)
                                (mixRatio time (heap s (currentPositions s ! i)))) * (12 / 10))"
    and "colors s' ! (i * 3 + 1)
              = min 1 (col_g (lerp (color1 th) (color2 th)
                                (mixRatio time (heap s (currentPositions s ! i)))) * (12 / 10))"
    and "colors s' ! (i * 3 + 2)
              = min 1 (col_b (lerp (color1 th) (color2 th)
                                (mixRatio time (heap s (currentPositions s ! i)))) * (12 / 10))"
    by (simp_all add: particleStep_def Let_def specVelocity_def handForce_sentinel [OF x]
        tempColor_sentinel [OF x] vadd_zero)
  with r a b c show ?thesis by blast
qed

lemma validColor_exampleTheme: "validColor (color1 exampleTheme) \<and> validColor (color2 exampleTheme)"
  by (simp add: validColor_def exampleTheme_def)

theorem colors_in_unit_interval_witness:
  "wellFormed exampleConfig exampleSystem \<and> validColor (color1 exampleTheme)
   \<and> validColor (color2 exampleTheme)
   \<and> (\<exists>s'. update exampleConfig 0 exampleTheme fistAtOrigin noNoise exampleSystem = Inr s'
        \<and> 0 \<le> colors s' ! 0 \<and> colors s' ! 0 \<le> 1 \<and> 0 \<le> colors s' ! 1 \<and> colors s' ! 1 \<le> 1
        \<and> 0 \<le> colors s' ! 2 \<and> colors s' ! 2 \<le> 1 \<and> 0 \<le> colors s' ! 3 \<and> colors s' ! 3 \<le> 1
        \<and> 0 \<le> colors s' ! 4 \<and> colors s' ! 4 \<le> 1 \<and> 0 \<le> colors s' ! 5 \<and> colors s' ! 5 \<le> 1)"
proof -
  note v = validColor_exampleTheme
  from colors_in_unit_interval [OF exampleSystem_wellFormed conjunct1 [OF v] conjunct2 [OF v],
      of 0 fistAtOrigin noNoise]
  obtain s' where r: "update exampleConfig 0 exampleTheme fistAtOrigin noNoise exampleSystem = Inr s'"
    and b: "\<And>i c. i < particleCount exampleConfig \<Longrightarrow> c < 3 \<Longrightarrow>
               0 \<le> colors s' ! (i * 3 + c) \<and> colors s' ! (i * 3 + c) \<le> 1"
    by blast
  have n: "(0::nat) < particleCount exampleConfig" "(1::nat) < particleCount exampleConfig"
    by (simp_all add: exampleConfig_def)
  have "0 \<le> colors s' ! 0 \<and> colors s' ! 0 \<le> 1"
    using b [OF n(1), of 0] by (simp add: eval_nat_numeral)
  moreover have "0 \<le> colors s' ! 1 \<and> colors s' ! 1 \<le> 1"
    using b [OF n(1), of 1] by (simp add: eval_nat_numeral)
  moreover have "0 \<le> colors s' ! 2 \<and> colors s' ! 2 \<le> 1"
    using b [OF n(1), of 2] by (simp add: eval_nat_numeral)
  moreover have "0 \<le> colors s' ! 3 \<and> colors s' ! 3 \<le> 1"
    using b [OF n(2), of 0] by (simp add: eval_nat_numeral)
  moreover have "0 \<le> colors s' ! 4 \<and> colors s' ! 4 \<le> 1"
    using b [OF n(2), of 1] by (simp add: eval_nat_numeral)
  moreover have "0 \<le> colors s' ! 5 \<and> colors s' ! 5 \<le> 1"
    using b [OF n(2), of 2] by (simp add: eval_nat_numeral)
  ultimately show ?thesis using r exampleSystem_wellFormed v by blast
qed

theorem update_keeps_targets_witness:
  "wellFormed exampleConfig exampleSystem
   \<and> (\<exists>s'. update exampleConfig 0 exampleTheme fistAtOrigin noNoise exampleSystem = Inr s'
        \<and> targetPositions s' = [2, 5]
        \<and> map (heap s') (targetPositions s') = [Vector3 20 0 0, Vector3 0 0 0])"
proof -
  from update_keeps_targets [OF exampleSystem_wellFormed, of 0 exampleTheme fistAtOrigin noNoise]
  obtain s' where r: "update exampleConfig 0 exampleTheme fistAtOrigin noNoise exampleSystem = Inr s'"
    and t: "targetPositions s' = targetPositions exampleSystem"
    and h: "map (heap s') (targetPositions s') = map (heap exampleSystem) (targetPositions exampleSystem)"
    by blast
  from t have "targetPositions s' = [2, 5]" by (simp add: exampleSystem_def)
  moreover from h have "map (heap s') (targetPositions s') = [Vector3 20 0 0, Vector3 0 0 0]"
    by (simp add: exampleSystem_def)
  ultimately show ?thesis using r exampleSystem_wellFormed by (auto intro!: exI [of _ s'])
qed

theorem no_hands_no_hand_effect_witness:
  "handCount noHands = 0 \<and> wellFormed exampleConfig exampleSystem
   \<and> (0::nat) < particleCount exampleConfig
   \<and> processResults_part_003 CONFIG exampleWindow fistAtOrigin noHands
       = Inr \<lparr>mode = 1, rightHandPos = Vector3 9999 9999 0, rightHandAction = ''neutral''\<rparr>
   \<and> processResults_part_003 CONFIG exampleWindow
        \<lparr>mode = 1, rightHandPos = Vector3 9999 9999 0, rightHandAction = ''neutral''\<rparr> noHands
       = Inr \<lparr>mode = 1, rightHandPos = Vector3 9999 9999 0, rightHandAction = ''neutral''\<rparr>
   \<and> (\<exists>s'. update exampleConfig 0 exampleTheme
              \<lparr>mode = 1, rightHandPos = Vector3 9999 9999 0, rightHandAction = ''neutral''\<rparr>
              noNoise exampleSystem = Inr s'
        \<and> heap s' 1 = Vector3 (1104 / 1000) 0 0)"
proof -
  have h1: "handCount noHands = 0" by (simp add: handCount_def noHands_def)
  have h3: "(0::nat) < particleCount exampleConfig" by (simp add: exampleConfig_def)
  have h4: "\<lparr>mode = 1, rightHandPos = Vector3 9999 9999 0, rightHandAction = ''neutral''\<rparr>
      = fistAtOrigin\<lparr>rightHandPos := Vector3 9999 9999 0, rightHandAction := ''neutral''\<rparr>"
    by (simp add: fistAtOrigin_def)
  note t = no_hands_no_hand_effect [OF h1 exampleSystem_wellFormed h3 h4,
      of processLeftHand_part_003 "processRightHand_part_003 CONFIG exampleWindow"
         0 exampleTheme noNoise]
  from t obtain s' where r: "update exampleConfig 0 exampleTheme
        \<lparr>mode = 1, rightHandPos = Vector3 9999 9999 0, rightHandAction = ''neutral''\<rparr>
        noNoise exampleSystem = Inr s'"
    and hv: "heap s' (velocities exampleSystem ! 0)
              = vscale (vadd (vadd (heap exampleSystem (velocities exampleSystem ! 0))
                   (returnForce exampleConfig (heap exampleSystem (targetPositions exampleSystem ! 0))
                                            (heap exampleSystem (currentPositions exampleSystem ! 0))))
                             (noise noNoise 0))
                       (friction exampleConfig)"
    by blast
  from hv have "heap s' 1 = Vector3 (1104 / 1000) 0 0"
    by (simp add: exampleSystem_def returnForce_def noise_def noNoise_def vadd_def vscale_def
        exampleConfig_def CONFIG_def)
  with t r h1 h3 exampleSystem_wellFormed show ?thesis
    unfolding processResults_part_003_def by blast
qed

lemma sum_squares3_pos:
  fixes a b c :: real
  assumes "a \<noteq> 0 \<or> b \<noteq> 0 \<or> c \<noteq> 0"
  shows "0 < a * a + b * b + c * c"
proof -
  have n: "0 \<le> a * a" "0 \<le> b * b" "0 \<le> c * c" by simp_all
  from assms have "0 < a * a \<or> 0 < b * b \<or> 0 < c * c"
    by (simp add: zero_less_mult_iff) linarith
  with n show ?thesis by linarith
qed

lemma distSq_pos: "100 \<le> distSq rhPos p"
proof -
  have "0 \<le> dot (vsub p rhPos) (vsub p rhPos)"
    unfolding dot_def by (intro add_nonneg_nonneg) simp_all
  then show ?thesis by (simp add: distSq_def)
qed

lemma handForce_explicit:
  assumes "vec_x rhPos \<noteq> 9999" and "distSq rhPos p < physicsInfluenceRadius cfg"
  shows "handForce cfg rhPos rhAction p =
     (if rhAction = ''fist''
      then vadd (vscale (vsub rhPos p) (forceMagnitude cfg rhPos p * (8 / 100))) (swirl rhPos p)
      else if rhAction = ''open''
      then vadd (vscale (vsub p rhPos) (forceMagnitude cfg rhPos p * (15 / 100))) (Vector3 0 0 2)
      else vscale (vsub p rhPos) (forceMagnitude cfg rhPos p * (2 / 100)))"
proof -
  define fm where "fm = forceMultiplier cfg / distSq rhPos p"
  have ds: "(vec_x p - vec_x rhPos) * (vec_x p - vec_x rhPos)
      + (vec_y p - vec_y rhPos) * (vec_y p - vec_y rhPos)
      + (vec_z p - vec_z rhPos) * (vec_z p - vec_z rhPos) + 100 = distSq rhPos p"
    by (simp add: distSq_def dot_def vsub_def)
  show ?thesis
    unfolding handForce_def handInteraction_def Let_def ds forceMagnitude_def fm_def [symmetric]
    using assms
    by (simp add: vadd_def vscale_def vsub_def swirl_def field_simps)
qed

lemma dot_vscale: "dot (vscale a k) b = k * dot a b"
  by (simp add: dot_def vscale_def algebra_simps)

lemma dot_vadd: "dot (vadd a b) c = dot a c + dot b c"
  by (simp add: dot_def vadd_def algebra_simps)

lemma dot_vsub_swap: "dot (vsub a b) (vsub a b) = dot (vsub b a) (vsub b a)"
  by (simp add: dot_def vsub_def algebra_simps)

lemma swirl_tangential:
  "dot (swirl rhPos p) (vsub p rhPos) = 0" "dot (swirl rhPos p) (vsub rhPos p) = 0"
  by (simp_all add: dot_def swirl_def vsub_def field_simps)

lemma dot_self_pos:
  assumes "p \<noteq> rhPos"
  shows "0 < dot (vsub p rhPos) (vsub p rhPos)"
proof -
  from assms have "vec_x p - vec_x rhPos \<noteq> 0 \<or> vec_y p - vec_y rhPos \<noteq> 0
      \<or> vec_z p - vec_z rhPos \<noteq> 0"
    by (cases p; cases rhPos) auto
  from sum_squares3_pos [OF this] show ?thesis by (simp add: dot_def vsub_def)
qed

text \<open>
  Claim C2, as amended. With the hand present and the particle within the physics
  radius, the hand block adds one force to the velocity, chosen by the action alone:
  for a fist 0.08 times the force magnitude along the direction to the hand, plus a
  rotation at right angles to that direction; for an open hand 0.15 times the force
  magnitude along the direction away from the hand, plus 2 on the depth axis; for any
  other action 0.02 times the force magnitude along the direction away from the hand.
  So the fist attracts, and the other two repel.
\<close>

theorem hand_force_by_action:
  assumes "vec_x rhPos \<noteq> 9999" and "distSq rhPos p < physicsInfluenceRadius cfg"
    and "0 < forceMultiplier cfg" and "p \<noteq> rhPos"
  shows "handInteraction cfg rhPos rhAction p v = vadd v (handForce cfg rhPos rhAction p)
     \<and> handForce cfg rhPos rhAction p =
         (if rhAction = ''fist''
          then vadd (vscale (vsub rhPos p) (forceMagnitude cfg rhPos p * (8 / 100))) (swirl rhPos p)
          else if rhAction = ''open''
          then vadd (vscale (vsub p rhPos) (forceMagnitude cfg rhPos p * (15 / 100))) (Vector3 0 0 2)
          else vscale (vsub p rhPos) (forceMagnitude cfg rhPos p * (2 / 100)))
     \<and> 0 < forceMagnitude cfg rhPos p
     \<and> dot (swirl rhPos p) (vsub p rhPos) = 0
     \<and> (if rhAction = ''fist'' then attracts rhPos p (handForce cfg rhPos rhAction p)
         else if rhAction = ''open''
         then repels rhPos p (vscale (vsub p rhPos) (forceMagnitude cfg rhPos p * (15 / 100)))
         else repels rhPos p (handForce cfg rhPos rhAction p))"
proof -
  define fm where "fm = forceMagnitude cfg rhPos p"
  define n where "n = dot (vsub p rhPos) (vsub p rhPos)"
  have fm: "0 < fm"
    using assms(3) distSq_pos [of rhPos p] by (simp add: fm_def forceMagnitude_def)
  have n: "0 < n" unfolding n_def by (rule dot_self_pos [OF assms(4)])
  have n': "dot (vsub rhPos p) (vsub rhPos p) = n"
    unfolding n_def by (rule dot_vsub_swap)
  note ex = handForce_explicit [OF assms(1,2), of rhAction]
  have pos: "0 < k * n" if "0 < k" for k using that n by simp
  have k8: "0 < fm * (8 / 100)" and k15: "0 < fm * (15 / 100)" and k2: "0 < fm * (2 / 100)"
    using fm by simp_all
  have a: "attracts rhPos p (vadd (vscale (vsub rhPos p) (fm * (8 / 100))) (swirl rhPos p))"
    unfolding attracts_def dot_vadd dot_vscale swirl_tangential n'
    using pos [OF k8] by simp
  have b: "repels rhPos p (vscale (vsub p rhPos) (fm * (15 / 100)))"
    unfolding repels_def dot_vscale n_def [symmetric]
    using pos [OF k15] by simp
  have c: "repels rhPos p (vscale (vsub p rhPos) (fm * (2 / 100)))"
    unfolding repels_def dot_vscale n_def [symmetric]
    using pos [OF k2] by simp
  have signs: "if rhAction = ''fist'' then attracts rhPos p (handForce cfg rhPos rhAction p)
         else if rhAction = ''open''
         then repels rhPos p (vscale (vsub p rhPos) (forceMagnitude cfg rhPos p * (15 / 100)))
         else repels rhPos p (handForce cfg rhPos rhAction p)"
    unfolding ex fm_def [symmetric] using a b c by simp
  from handInteraction_handForce ex fm swirl_tangential(1) signs show ?thesis
    unfolding fm_def by blast
qed

text \<open>
  The claim as stated fails for the neutral action: the force on a particle at
  (10, 0, 0), with the hand at the origin, is (15, 0, 0), away from the hand.
\<close>

theorem hand_force_by_action_counterexample:
  "vec_x (rightHandPos neutralAtOrigin) \<noteq> 9999
   \<and> distSq (rightHandPos neutralAtOrigin) (Vector3 10 0 0) < physicsInfluenceRadius CONFIG
   \<and> rightHandAction neutralAtOrigin \<noteq> ''fist'' \<and> rightHandAction neutralAtOrigin \<noteq> ''open''
   \<and> handForce CONFIG (rightHandPos neutralAtOrigin) (rightHandAction neutralAtOrigin)
        (Vector3 10 0 0) = Vector3 15 0 0
   \<and> \<not> attracts (rightHandPos neutralAtOrigin) (Vector3 10 0 0)
          (handForce CONFIG (rightHandPos neutralAtOrigin) (rightHandAction neutralAtOrigin)
             (Vector3 10 0 0))"
  by (simp add: neutralAtOrigin_def distSq_def dot_def vsub_def CONFIG_def handForce_def
      handInteraction_def attracts_def Let_def)

theorem hand_force_by_action_witness:
  "vec_x (Vector3 0 0 0) \<noteq> 9999
   \<and> distSq (Vector3 0 0 0) (Vector3 10 0 0) < physicsInfluenceRadius CONFIG
   \<and> 0 < forceMultiplier CONFIG \<and> Vector3 10 0 0 \<noteq> Vector3 0 0 0
   \<and> handForce CONFIG (Vector3 0 0 0) ''fist'' (Vector3 10 0 0) = Vector3 (- 60) (- 1 / 2) 0
   \<and> attracts (Vector3 0 0 0) (Vector3 10 0 0)
        (handForce CONFIG (Vector3 0 0 0) ''fist'' (Vector3 10 0 0))
   \<and> handForce CONFIG (Vector3 0 0 0) ''open'' (Vector3 10 0 0) = Vector3 (225 / 2) 0 2
   \<and> handForce CONFIG (Vector3 0 0 0) ''neutral'' (Vector3 10 0 0) = Vector3 15 0 0
   \<and> repels (Vector3 0 0 0) (Vector3 10 0 0)
        (handForce CONFIG (Vector3 0 0 0) ''neutral'' (Vector3 10 0 0))"
proof -
  have h1: "vec_x (Vector3 0 0 0) \<noteq> 9999" by simp
  have h2: "distSq (Vector3 0 0 0) (Vector3 10 0 0) < physicsInfluenceRadius CONFIG"
    by (simp add: distSq_def dot_def vsub_def CONFIG_def)
  have h3: "0 < forceMultiplier CONFIG" by (simp add: CONFIG_def)
  have h4: "Vector3 10 0 0 \<noteq> Vector3 0 0 0" by simp
  have fm: "forceMagnitude CONFIG (Vector3 0 0 0) (Vector3 10 0 0) = 75"
    by (simp add: forceMagnitude_def distSq_def dot_def vsub_def CONFIG_def)
  note t = hand_force_by_action [OF h1 h2 h3 h4]
  note t2 = t [THEN conjunct2, THEN conjunct1]
  note t5 = t [THEN conjunct2, THEN conjunct2, THEN conjunct2, THEN conjunct2]
  have a: "handForce CONFIG (Vector3 0 0 0) ''fist'' (Vector3 10 0 0) = Vector3 (- 60) (- 1 / 2) 0"
    using t2 [of "''fist''"] by (simp add: fm vadd_def vscale_def vsub_def swirl_def)
  have b: "attracts (Vector3 0 0 0) (Vector3 10 0 0)
        (handForce CONFIG (Vector3 0 0 0) ''fist'' (Vector3 10 0 0))"
    using t5 [of "''fist''"] by simp
  have c: "handForce CONFIG (Vector3 0 0 0) ''open'' (Vector3 10 0 0) = Vector3 (225 / 2) 0 2"
    using t2 [of "''open''"] by (simp add: fm vadd_def vscale_def vsub_def)
  have d: "handForce CONFIG (Vector3 0 0 0) ''neutral'' (Vector3 10 0 0) = Vector3 15 0 0"
    using t2 [of "''neutral''"] by (simp add: fm vscale_def vsub_def)
  have e: "repels (Vector3 0 0 0) (Vector3 10 0 0)
        (handForce CONFIG (Vector3 0 0 0) ''neutral'' (Vector3 10 0 0))"
    using t5 [of "''neutral''"] by simp
  from h1 h2 h3 h4 a b c d e show ?thesis by blast
qed

subsection \<open>Text generation\<close>

lemma scanRow_total:
  assumes "0 < step"
  shows "\<exists>r. scanRow data W H step y x acc = Some r"
proof (induction "W - x" arbitrary: x acc rule: less_induct)
  case less
  show ?case
  proof (cases "x < W")
    case True
    with assms have "W - (x + step) < W - x" by arith
    from less [OF this]
    obtain r where "scanRow data W H step y (x + step)
        (if foreground data W y x then acc @ [glyphAt W H y x] else acc) = Some r"
      by blast
    with True show ?thesis by (subst scanRow.simps) simp
  next
    case False
    then show ?thesis by (subst scanRow.simps) simp
  qed
qed

lemma scanRows_total:
  assumes "0 < step"
  shows "\<exists>r. scanRows data W H step y acc = Some r"
proof (induction "H - y" arbitrary: y acc rule: less_induct)
  case less
  show ?case
  proof (cases "y < H")
    case True
    with assms have d: "H - (y + step) < H - y" by arith
    from scanRow_total [OF assms] obtain acc'
      where row: "scanRow data W H step y 0 acc = Some acc'"
      by blast
    from less [OF d] obtain r where "scanRows data W H step (y + step) acc' = Some r"
      by blast
    with True row show ?thesis by (subst scanRows.simps) simp
  next
    case False
    then show ?thesis by (subst scanRows.simps) simp
  qed
qed

lemma samplePoints_total:
  "0 < samplingStep cfg \<Longrightarrow> \<exists>vp. samplePoints cfg data = Some vp"
  unfolding samplePoints_def by (rule scanRows_total)

text \<open>
  With a sampling step of 0 the loop over a row does not return once it is entered,
  and so the sampling of a canvas that is not empty does not return.
\<close>

lemma scanRow_step_zero:
  assumes "scanRow data W H step y x acc = Some r"
  shows "step = 0 \<longrightarrow> \<not> x < W"
proof (rule scanRow.raw_induct [where P = "\<lambda>data W H step y x acc r. step = 0 \<longrightarrow> \<not> x < W"
      and xa = "((((((data, W), H), step), y), x), acc)" and ya = r, simplified])
  show "scanRow data W H step y x acc = Some r" by (rule assms)
next
  fix f :: "nat list \<Rightarrow> nat \<Rightarrow> nat \<Rightarrow> nat \<Rightarrow> nat \<Rightarrow> nat \<Rightarrow> glyphPoint list \<Rightarrow> glyphPoint list option"
  fix data W H step y x acc r
  assume ih: "\<And>data W H step y x acc r. f data W H step y x acc = Some r \<Longrightarrow> step = 0 \<longrightarrow> \<not> x < W"
    and e: "(if x < W
         then f data W H step y (x + step)
                (if foreground data W y x then acc @ [glyphAt W H y x] else acc)
         else Some acc) = Some r"
  show "step = 0 \<longrightarrow> \<not> x < W"
  proof (intro impI notI)
    assume s: "step = 0" and x: "x < W"
    with e have "f data W H step y (x + step)
        (if foreground data W y x then acc @ [glyphAt W H y x] else acc) = Some r"
      by simp
    from ih [OF this] s x show False by simp
  qed
qed

lemma scanRow_diverges: "x < W \<Longrightarrow> scanRow data W H 0 y x acc = None"
  using scanRow_step_zero [of data W H 0 y x acc] by (cases "scanRow data W H 0 y x acc") auto

lemma samplePoints_diverges:
  assumes "samplingStep cfg = 0" and "0 < canvasWidth cfg" and "0 < canvasHeight cfg"
  shows "samplePoints cfg data = None"
  using assms
  by (simp add: samplePoints_def scanRows.simps [of _ _ _ _ 0] scanRow_diverges)

text \<open>
  The sampled points are pairwise different: the loops visit every pixel once at most,
  and different pixels give different points.
\<close>

lemma glyphAt_inject:
  "glyphAt W H y x = glyphAt W H y' x' \<longleftrightarrow> y = y' \<and> x = x'"
  by (auto simp: glyphAt_def)

lemma scanRow_points:
  assumes "0 < step"
  shows "scanRow data W H step y x acc = Some r \<Longrightarrow>
         \<exists>xs. r = acc @ map (glyphAt W H y) xs \<and> distinct xs \<and> (\<forall>x' \<in> set xs. x \<le> x')"
proof (induction "W - x" arbitrary: x acc rule: less_induct)
  case less
  show ?case
  proof (cases "x < W")
    case True
    with assms have d: "W - (x + step) < W - x" by arith
    define acc' where "acc' = (if foreground data W y x then acc @ [glyphAt W H y x] else acc)"
    from less.prems True have "scanRow data W H step y (x + step) acc' = Some r"
      by (subst (asm) scanRow.simps) (simp add: acc'_def)
    from less.hyps [OF d this] obtain xs where r: "r = acc' @ map (glyphAt W H y) xs"
      and dx: "distinct xs" and ge: "\<forall>x' \<in> set xs. x + step \<le> x'"
      by blast
    from ge assms have nx: "x \<notin> set xs" and ge': "\<forall>x' \<in> set xs. x \<le> x'" by auto
    show ?thesis
    proof (cases "foreground data W y x")
      case True
      with r have "r = acc @ map (glyphAt W H y) (x # xs)" by (simp add: acc'_def)
      moreover from dx nx have "distinct (x # xs)" by simp
      moreover from ge' have "\<forall>x' \<in> set (x # xs). x \<le> x'" by simp
      ultimately show ?thesis by blast
    next
      case False
      with r have "r = acc @ map (glyphAt W H y) xs" by (simp add: acc'_def)
      with dx ge' show ?thesis by blast
    qed
  next
    case False
    with less.prems have "r = acc" by (subst (asm) scanRow.simps) simp
    then have "r = acc @ map (glyphAt W H y) []" by simp
    then show ?thesis by force
  qed
qed

lemma scanRows_points:
  assumes "0 < step"
  shows "scanRows data W H step y acc = Some r \<Longrightarrow>
         \<exists>ps. r = acc @ map (\<lambda>(y', x'). glyphAt W H y' x') ps \<and> distinct ps
              \<and> (\<forall>(y', x') \<in> set ps. y \<le> y')"
proof (induction "H - y" arbitrary: y acc rule: less_induct)
  case less
  show ?case
  proof (cases "y < H")
    case True
    with assms have d: "H - (y + step) < H - y" by arith
    from less.prems True obtain acc' where row: "scanRow data W H step y 0 acc = Some acc'"
      and rest: "scanRows data W H step (y + step) acc' = Some r"
      by (subst (asm) scanRows.simps) (auto simp: bind_eq_Some_conv)
    from scanRow_points [OF assms row] obtain xs
      where acc': "acc' = acc @ map (glyphAt W H y) xs" and dx: "distinct xs"
      by blast
    from less.hyps [OF d rest] obtain ps
      where r: "r = acc' @ map (\<lambda>(y', x'). glyphAt W H y' x') ps" and dp: "distinct ps"
        and ge: "\<forall>(y', x') \<in> set ps. y + step \<le> y'"
      by blast
    define qs where "qs = map (Pair y) xs @ ps"
    have "r = acc @ map (\<lambda>(y', x'). glyphAt W H y' x') qs"
      by (simp add: r acc' qs_def comp_def)
    moreover have "distinct qs"
      using dx dp ge assms by (auto simp: qs_def distinct_map inj_on_def)
    moreover have "\<forall>(y', x') \<in> set qs. y \<le> y'"
      using ge by (auto simp: qs_def)
    ultimately show ?thesis by blast
  next
    case False
    with less.prems have "r = acc" by (subst (asm) scanRows.simps) simp
    then have "r = acc @ map (\<lambda>(y', x'). glyphAt W H y' x') []" by simp
    then show ?thesis by force
  qed
qed

lemma samplePoints_distinct:
  assumes "0 < samplingStep cfg" and "samplePoints cfg data = Some vp"
  shows "distinct vp"
proof -
  from scanRows_points [OF assms(1)] assms(2)
  obtain ps where vp: "vp = map (\<lambda>(y', x'). glyphAt (canvasWidth cfg) (canvasHeight cfg) y' x') ps"
    and d: "distinct ps"
    unfolding samplePoints_def by fastforce
  have "inj_on (\<lambda>(y', x'). glyphAt (canvasWidth cfg) (canvasHeight cfg) y' x') (set ps)"
    by (auto simp: inj_on_def glyphAt_inject)
  with d show ?thesis by (simp add: vp distinct_map)
qed

lemma leaves_bindTree:
  "leaves (bindTree t f) = concat (map (\<lambda>ys. leaves (f ys)) (leaves t))"
  by (induction t) simp_all

lemma insertTree_permutes:
  "ys \<in> set (leaves (insertTree a bs)) \<Longrightarrow> mset ys = add_mset a (mset bs)"
proof (induction bs arbitrary: ys)
  case Nil
  then show ?case by simp
next
  case (Cons b bs)
  from Cons.prems
  have "ys = a # b # bs \<or> (\<exists>zs \<in> set (leaves (insertTree a bs)). ys = b # zs)"
    by (auto simp: leaves_bindTree)
  then show ?case
  proof
    assume "ys = a # b # bs"
    then show ?thesis by simp
  next
    assume "\<exists>zs \<in> set (leaves (insertTree a bs)). ys = b # zs"
    then obtain zs where zs: "zs \<in> set (leaves (insertTree a bs))" and ys: "ys = b # zs"
      by blast
    from Cons.IH [OF zs] ys show ?thesis by simp
  qed
qed

lemma insertionSort_leaves:
  "ys \<in> set (leaves (insertionSort xs)) \<Longrightarrow> mset ys = mset xs"
proof (induction xs arbitrary: ys)
  case Nil
  then show ?case by simp
next
  case (Cons a as)
  from Cons.prems obtain zs where zs: "zs \<in> set (leaves (insertionSort as))"
    and ys: "ys \<in> set (leaves (insertTree a zs))"
    by (auto simp: leaves_bindTree)
  from insertTree_permutes [OF ys] Cons.IH [OF zs] show ?case by simp
qed

lemma insertionSort_permutes: "sortPermutes (insertionSort xs) xs"
  by (simp add: sortPermutes_def list_all_iff insertionSort_leaves)

lemma runSort_leaf: "fst (runSort t rnd k) \<in> set (leaves t)"
  by (induction t arbitrary: k) (simp_all add: Let_def)

lemma runSort_permutes:
  assumes "sortPermutes t xs" and "runSort t rnd k = (ys, k')"
  shows "mset ys = mset xs"
proof -
  from runSort_leaf [of t rnd k] assms(2) have "ys \<in> set (leaves t)" by simp
  with assms(1) show ?thesis by (simp add: sortPermutes_def list_all_iff)
qed

lemma ringPoint_ring:
  assumes "unitSource rnd"
  shows "\<exists>angle r z. angle = rnd k * pi * 2 \<and> 0 \<le> angle \<and> angle < 2 * pi
           \<and> r = 500 + rnd (k + 1) * 500 \<and> 500 \<le> r \<and> r < 1000
           \<and> z = (rnd (k + 2) - 1 / 2) * 400 \<and> - 200 \<le> z \<and> z < 200
           \<and> ringPoint rnd k = Vector3 (cos angle * r) (sin angle * r) z"
proof -
  from assms have u: "0 \<le> rnd k" "rnd k < 1" "0 \<le> rnd (k + 1)" "rnd (k + 1) < 1"
      "0 \<le> rnd (k + 2)" "rnd (k + 2) < 1"
    by (simp_all add: unitSource_def)
  have a: "0 \<le> rnd k * pi * 2" "rnd k * pi * 2 < 2 * pi"
    using u(1,2) pi_gt_zero by simp_all
  have r: "500 \<le> 500 + rnd (k + 1) * 500" "500 + rnd (k + 1) * 500 < 1000"
    using u(3,4) by simp_all
  have z: "- 200 \<le> (rnd (k + 2) - 1 / 2) * 400" "(rnd (k + 2) - 1 / 2) * 400 < 200"
    using u(5,6) by simp_all
  have "ringPoint rnd k = Vector3 (cos (rnd k * pi * 2) * (500 + rnd (k + 1) * 500))
      (sin (rnd k * pi * 2) * (500 + rnd (k + 1) * 500)) ((rnd (k + 2) - 1 / 2) * 400)"
    by (simp add: ringPoint_def Let_def)
  with a r z show ?thesis by blast
qed

lemma fillTargets_from:
  assumes "wellFormed cfg s" and "m \<le> particleCount cfg"
  shows "\<exists>s'. fillTargets vp rnd [m..<particleCount cfg] (k0 + 3 * (m - length vp)) s = Inr s'
           \<and> sameShape s s'
           \<and> (\<forall>i. m \<le> i \<longrightarrow> i < particleCount cfg
                  \<longrightarrow> heap s' (targetPositions s ! i) = targetFor vp rnd k0 i)
           \<and> (\<forall>a. (\<forall>i. m \<le> i \<longrightarrow> i < particleCount cfg \<longrightarrow> a \<noteq> targetPositions s ! i)
                  \<longrightarrow> heap s' a = heap s a)"
  using assms
proof (induction "particleCount cfg - m" arbitrary: m s)
  case 0
  then have "m = particleCount cfg" by simp
  then show ?case by (simp add: sameShape_refl)
next
  case (Suc d)
  then have m: "m < particleCount cfg" by simp
  note wf = Suc.prems(1)
  from wf m have len: "m < length (targetPositions s)" by (simp add: wellFormed_def)
  define s1 where "s1 = s\<lparr>heap := (heap s)(targetPositions s ! m := targetFor vp rnd k0 m)\<rparr>"
  have sh1: "sameShape s s1" by (simp add: s1_def sameShape_def)
  have wf1: "wellFormed cfg s1" by (rule sameShape_wellFormed [OF sh1 wf])
  have d: "d = particleCount cfg - Suc m" using Suc.hyps(2) by simp
  have m': "Suc m \<le> particleCount cfg" using m by simp
  from Suc.hyps(1) [OF d wf1 m']
  obtain s' where r': "fillTargets vp rnd [Suc m..<particleCount cfg]
        (k0 + 3 * (Suc m - length vp)) s1 = Inr s'"
    and sh': "sameShape s1 s'"
    and v': "\<And>i. Suc m \<le> i \<Longrightarrow> i < particleCount cfg
               \<Longrightarrow> heap s' (targetPositions s1 ! i) = targetFor vp rnd k0 i"
    and f': "\<And>a. (\<And>i. Suc m \<le> i \<Longrightarrow> i < particleCount cfg \<Longrightarrow> a \<noteq> targetPositions s1 ! i)
               \<Longrightarrow> heap s' a = heap s1 a"
    by blast
  have t1: "targetPositions s1 = targetPositions s" by (simp add: s1_def)
  have step: "fillTargets vp rnd [m..<particleCount cfg] (k0 + 3 * (m - length vp)) s
      = fillTargets vp rnd [Suc m..<particleCount cfg] (k0 + 3 * (Suc m - length vp)) s1"
  proof (cases "m < length vp")
    case True
    then have "m - length vp = 0" "Suc m - length vp = 0" by simp_all
    with True len m show ?thesis
      by (simp add: upt_conv_Cons s1_def targetFor_def)
  next
    case False
    then have e: "k0 + 3 * (m - length vp) + 3 = k0 + 3 * (Suc m - length vp)" by simp
    show ?thesis
      unfolding e [symmetric] using False len m
      by (simp add: upt_conv_Cons s1_def targetFor_def)
  qed
  have r: "fillTargets vp rnd [m..<particleCount cfg] (k0 + 3 * (m - length vp)) s = Inr s'"
    using step r' by simp
  have sh: "sameShape s s'" by (rule sameShape_trans [OF sh1 sh'])
  have vm: "heap s' (targetPositions s ! m) = targetFor vp rnd k0 m"
  proof -
    have "heap s' (targetPositions s ! m) = heap s1 (targetPositions s ! m)"
    proof (rule f')
      fix i assume "Suc m \<le> i" "i < particleCount cfg"
      then have "m \<noteq> i" by simp
      with wf_distinct(6) [OF wf m \<open>i < particleCount cfg\<close>]
      show "targetPositions s ! m \<noteq> targetPositions s1 ! i" by (simp add: t1)
    qed
    then show ?thesis by (simp add: s1_def)
  qed
  have v: "heap s' (targetPositions s ! i) = targetFor vp rnd k0 i"
    if "m \<le> i" "i < particleCount cfg" for i
  proof (cases "i = m")
    case True
    with vm show ?thesis by simp
  next
    case False
    with that have "Suc m \<le> i" by simp
    from v' [OF this that(2)] show ?thesis by (simp add: t1)
  qed
  have f: "heap s' a = heap s a"
    if "\<And>i. m \<le> i \<Longrightarrow> i < particleCount cfg \<Longrightarrow> a \<noteq> targetPositions s ! i" for a
  proof -
    have "heap s' a = heap s1 a"
      by (rule f') (use that in \<open>simp add: t1\<close>)
    moreover have "a \<noteq> targetPositions s ! m" using that [of m] m by simp
    ultimately show ?thesis by (simp add: s1_def)
  qed
  from r sh v f show ?case by blast
qed

lemma fillTargets_all:
  assumes "wellFormed cfg s"
  shows "\<exists>s'. fillTargets vp rnd [0..<particleCount cfg] k0 s = Inr s' \<and> sameShape s s'
           \<and> (\<forall>i < particleCount cfg. heap s' (targetPositions s ! i) = targetFor vp rnd k0 i)"
  using fillTargets_from [OF assms, of 0 vp rnd k0] by auto

text \<open>Text generation keeps the system well-formed.\<close>

lemma generateTextParticles_wellFormed:
  assumes "wellFormed cfg s" and "0 < samplingStep cfg"
  shows "\<exists>s'. generateTextParticles cfg render engine rnd txt s = Some (Inr s')
           \<and> wellFormed cfg s'"
proof -
  from samplePoints_total [OF assms(2)] obtain vp
    where vp: "samplePoints cfg (render txt) = Some vp"
    by blast
  obtain shuffled k where run: "runSort (engine vp) rnd 0 = (shuffled, k)"
    by (cases "runSort (engine vp) rnd 0")
  from fillTargets_all [OF assms(1), of shuffled rnd k]
  obtain s' where fill: "fillTargets shuffled rnd [0..<particleCount cfg] k s = Inr s'"
    and sh: "sameShape s s'"
    by blast
  have "generateTextParticles cfg render engine rnd txt s = Some (Inr s')"
    by (simp add: generateTextParticles_def vp run fill)
  with sameShape_wellFormed [OF sh assms(1)] show ?thesis by blast
qed

text \<open>
  Claim C3. In a well-formed system, with a positive sampling step, draws in [0, 1) and
  an engine whose sort rearranges, \<^verbatim>\<open>generateTextParticles\<close> returns without error,
  keeps the target array, and gives the target of every particle \<open>i\<close> a value: the
  i-th point of the shuffled glyph points (with depth 0) when \<open>i\<close> is less than the number
  of sampled points, and otherwise a point \<open>(cos angle * r, sin angle * r, z)\<close> with the
  angle a draw times \<open>2 * pi\<close>, the radius \<open>r\<close> in [500, 1000) and the depth \<open>z\<close> in
  [-200, 200). Sampled points beyond the particle count are not used.
\<close>

theorem every_target_defined:
  assumes "wellFormed cfg s" and "0 < samplingStep cfg" and "unitSource rnd"
    and "\<And>xs. sortPermutes (engine xs) xs" and "i < particleCount cfg"
  shows "\<exists>validPoints shuffled k s'.
       samplePoints cfg (render txt) = Some validPoints
     \<and> runSort (engine validPoints) rnd 0 = (shuffled, k)
     \<and> mset shuffled = mset validPoints
     \<and> generateTextParticles cfg render engine rnd txt s = Some (Inr s')
     \<and> targetPositions s' = targetPositions s
     \<and> (if i < length validPoints
         then heap s' (targetPositions s ! i)
                = Vector3 (gp_x (shuffled ! i)) (gp_y (shuffled ! i)) 0
         else (\<exists>angle r z.
                 angle = rnd (k + 3 * (i - length validPoints)) * pi * 2
               \<and> 0 \<le> angle \<and> angle < 2 * pi
               \<and> r = 500 + rnd (k + 3 * (i - length validPoints) + 1) * 500
               \<and> 500 \<le> r \<and> r < 1000
               \<and> z = (rnd (k + 3 * (i - length validPoints) + 2) - 1 / 2) * 400
               \<and> - 200 \<le> z \<and> z < 200
               \<and> heap s' (targetPositions s ! i)
                    = Vector3 (cos angle * r) (sin angle * r) z))"
proof -
  from samplePoints_total [OF assms(2)] obtain vp
    where vp: "samplePoints cfg (render txt) = Some vp"
    by blast
  obtain shuffled k where run: "runSort (engine vp) rnd 0 = (shuffled, k)"
    by (cases "runSort (engine vp) rnd 0")
  have perm: "mset shuffled = mset vp"
    by (rule runSort_permutes [OF assms(4) run])
  then have len: "length shuffled = length vp" by (rule mset_eq_length)
  from fillTargets_all [OF assms(1), of shuffled rnd k] assms(5)
  obtain s' where fill: "fillTargets shuffled rnd [0..<particleCount cfg] k s = Inr s'"
    and sh: "sameShape s s'"
    and tgt: "heap s' (targetPositions s ! i) = targetFor shuffled rnd k i"
    by blast
  have gen: "generateTextParticles cfg render engine rnd txt s = Some (Inr s')"
    by (simp add: generateTextParticles_def vp run fill)
  from sh have same: "targetPositions s' = targetPositions s" by (simp add: sameShape_def)
  have val: "if i < length vp
         then heap s' (targetPositions s ! i)
                = Vector3 (gp_x (shuffled ! i)) (gp_y (shuffled ! i)) 0
         else (\<exists>angle r z.
                 angle = rnd (k + 3 * (i - length vp)) * pi * 2
               \<and> 0 \<le> angle \<and> angle < 2 * pi
               \<and> r = 500 + rnd (k + 3 * (i - length vp) + 1) * 500
               \<and> 500 \<le> r \<and> r < 1000
               \<and> z = (rnd (k + 3 * (i - length vp) + 2) - 1 / 2) * 400
               \<and> - 200 \<le> z \<and> z < 200
               \<and> heap s' (targetPositions s ! i)
                    = Vector3 (cos angle * r) (sin angle * r) z)"
  proof (cases "i < length vp")
    case True
    with tgt len show ?thesis by (simp add: targetFor_def)
  next
    case False
    with tgt len have "heap s' (targetPositions s ! i) = ringPoint rnd (k + 3 * (i - length vp))"
      by (simp add: targetFor_def)
    with ringPoint_ring [OF assms(3), of "k + 3 * (i - length vp)"] False
    show ?thesis by simp
  qed
  from vp run perm gen same val show ?thesis by blast
qed

lemma example_samplePoints:
  "samplePoints exampleConfig (exampleRender txt) = Some [GlyphPoint (- 22 / 10) (22 / 10)]"
  by (simp add: samplePoints_def exampleConfig_def CONFIG_def scanRows.simps scanRow.simps
      foreground_def exampleRender_def glyphAt_def)

lemma unitSource_quarter: "unitSource quarterSource"
  by (simp add: unitSource_def quarterSource_def)

theorem every_target_defined_witness:
  "wellFormed exampleConfig exampleSystem \<and> 0 < samplingStep exampleConfig
   \<and> unitSource quarterSource
   \<and> sortPermutes (insertionSort [GlyphPoint (- 22 / 10) (22 / 10)]) [GlyphPoint (- 22 / 10) (22 / 10)]
   \<and> (1::nat) < particleCount exampleConfig
   \<and> samplePoints exampleConfig (exampleRender ''Hello'') = Some [GlyphPoint (- 22 / 10) (22 / 10)]
   \<and> (\<exists>s'. generateTextParticles exampleConfig exampleRender insertionSort quarterSource
               ''Hello'' exampleSystem = Some (Inr s')
        \<and> targetPositions s' = [2, 5]
        \<and> heap s' 2 = Vector3 (- 22 / 10) (22 / 10) 0
        \<and> heap s' 5 = Vector3 0 625 (- 100))"
proof -
  have h2: "0 < samplingStep exampleConfig" by (simp add: exampleConfig_def)
  have i0: "(0::nat) < particleCount exampleConfig" and i1: "(1::nat) < particleCount exampleConfig"
    by (simp_all add: exampleConfig_def)
  note vp = example_samplePoints [of "''Hello''"]
  have run: "runSort (insertionSort [GlyphPoint (- 22 / 10) (22 / 10)]) quarterSource 0
      = ([GlyphPoint (- 22 / 10) (22 / 10)], 0)"
    by simp
  note t = every_target_defined [OF exampleSystem_wellFormed h2 unitSource_quarter
      insertionSort_permutes, of _ exampleRender "''Hello''"]
  from t [OF i0] obtain s' where
    gen: "generateTextParticles exampleConfig exampleRender insertionSort quarterSource
               ''Hello'' exampleSystem = Some (Inr s')"
    and same: "targetPositions s' = targetPositions exampleSystem"
    and v0: "heap s' (targetPositions exampleSystem ! 0) = Vector3 (- 22 / 10) (22 / 10) 0"
    unfolding vp by (auto simp: run)
  from t [OF i1] gen have "\<exists>angle r z.
         angle = quarterSource (0 + 3 * (1 - 1)) * pi * 2
       \<and> r = 500 + quarterSource (0 + 3 * (1 - 1) + 1) * 500
       \<and> z = (quarterSource (0 + 3 * (1 - 1) + 2) - 1 / 2) * 400
       \<and> heap s' (targetPositions exampleSystem ! 1) = Vector3 (cos angle * r) (sin angle * r) z"
    unfolding vp by (auto simp: run)
  then obtain angle r z
    where e: "angle = quarterSource (0 + 3 * (1 - 1)) * pi * 2"
      "r = 500 + quarterSource (0 + 3 * (1 - 1) + 1) * 500"
      "z = (quarterSource (0 + 3 * (1 - 1) + 2) - 1 / 2) * 400"
    and hv: "heap s' (targetPositions exampleSystem ! 1) = Vector3 (cos angle * r) (sin angle * r) z"
    by blast
  from e have "angle = pi / 2" "r = 625" "z = - 100" by (simp_all add: quarterSource_def)
  with hv have v1: "heap s' (targetPositions exampleSystem ! 1) = Vector3 0 625 (- 100)"
    by simp
  from same have a: "targetPositions s' = [2, 5]" by (simp add: exampleSystem_def)
  from v0 have b: "heap s' 2 = Vector3 (- 22 / 10) (22 / 10) 0" by (simp add: exampleSystem_def)
  from v1 have c: "heap s' 5 = Vector3 0 625 (- 100)" by (simp add: exampleSystem_def)
  from gen a b c have "\<exists>s'. generateTextParticles exampleConfig exampleRender insertionSort
        quarterSource ''Hello'' exampleSystem = Some (Inr s')
        \<and> targetPositions s' = [2, 5]
        \<and> heap s' 2 = Vector3 (- 22 / 10) (22 / 10) 0
        \<and> heap s' 5 = Vector3 0 625 (- 100)"
    by blast
  with exampleSystem_wellFormed h2 unitSource_quarter insertionSort_permutes i1 vp
  show ?thesis by blast
qed

subsection \<open>The shuffle\<close>

lemma two_power_mod3: "(2::nat) ^ h mod 3 = 1 \<or> (2::nat) ^ h mod 3 = 2"
proof (induction h)
  case 0
  show ?case by simp
next
  case (Suc h)
  have a: "(2 * x) mod 3 = 2" if "x mod 3 = 1" for x :: nat using that by presburger
  have b: "(2 * x) mod 3 = 1" if "x mod 3 = 2" for x :: nat using that by presburger
  from Suc a [of "2 ^ h"] b [of "2 ^ h"] show ?case by auto
qed

lemma three_not_dvd_two_power: "\<not> (3::nat) dvd 2 ^ h"
  using two_power_mod3 [of h] by (auto simp: dvd_eq_mod_eq_0)

lemma sortProb_dyadic:
  "treeHeight t \<le> h \<Longrightarrow> \<exists>c::nat. sortProb t out * 2 ^ h = real c"
proof (induction t arbitrary: h)
  case (Done ys)
  show ?case
  proof (cases "ys = out")
    case True
    then have "sortProb (Done ys) out * 2 ^ h = real (2 ^ h)" by simp
    then show ?thesis by blast
  next
    case False
    then have "sortProb (Done ys) out * 2 ^ h = real 0" by simp
    then show ?thesis by blast
  qed
next
  case (Cmp neg zero pos)
  from Cmp.prems obtain h' where h: "h = Suc h'" and n: "treeHeight neg \<le> h'"
    and p: "treeHeight pos \<le> h'"
    by (cases h) auto
  from Cmp.IH(1) [OF n] obtain c1 :: nat where c1: "sortProb neg out * 2 ^ h' = real c1" by blast
  from Cmp.IH(3) [OF p] obtain c2 :: nat where c2: "sortProb pos out * 2 ^ h' = real c2" by blast
  have "sortProb (Cmp neg zero pos) out * 2 ^ h
      = sortProb neg out * 2 ^ h' + sortProb pos out * 2 ^ h'"
    by (simp add: h algebra_simps)
  also have "\<dots> = real (c1 + c2)" by (simp add: c1 c2)
  finally show ?case by blast
qed

lemma sortPermutes_Cmp:
  "sortPermutes (Cmp neg zero pos) xs \<Longrightarrow> sortPermutes neg xs \<and> sortPermutes pos xs"
  by (simp add: sortPermutes_def)

lemma sortProb_sum:
  "sortPermutes t xs \<Longrightarrow> (\<Sum>ys \<in> {ys. mset ys = mset xs}. sortProb t ys) = 1"
proof (induction t)
  case (Done zs)
  then have z: "zs \<in> {ys. mset ys = mset xs}" by (simp add: sortPermutes_def)
  have "(\<Sum>ys \<in> {ys. mset ys = mset xs}. sortProb (Done zs) ys)
      = (\<Sum>ys \<in> {ys. mset ys = mset xs}. if zs = ys then 1 else 0)"
    by simp
  also have "\<dots> = 1" using z by (simp add: mset_eq_finite)
  finally show ?case .
next
  case (Cmp neg zero pos)
  from sortPermutes_Cmp [OF Cmp.prems] Cmp.IH(1,3)
  have s: "(\<Sum>ys \<in> {ys. mset ys = mset xs}. sortProb neg ys) = 1"
    "(\<Sum>ys \<in> {ys. mset ys = mset xs}. sortProb pos ys) = 1"
    by simp_all
  have "(\<Sum>ys \<in> {ys. mset ys = mset xs}. sortProb (Cmp neg zero pos) ys)
      = (\<Sum>ys \<in> {ys. mset ys = mset xs}. sortProb neg ys) / 2
        + (\<Sum>ys \<in> {ys. mset ys = mset xs}. sortProb pos ys) / 2"
    by (simp add: sum.distrib sum_divide_distrib)
  with s show ?case by simp
qed

lemma permutations_as_lists:
  assumes "distinct xs"
  shows "{ys. mset ys = mset xs}
       = {ys. length ys = length xs \<and> distinct ys \<and> set ys \<subseteq> set xs}"
proof (intro set_eqI iffI; clarsimp)
  fix ys assume e: "mset ys = mset xs"
  from e have "length ys = length xs" by (rule mset_eq_length)
  moreover from e assms have "distinct ys" by (simp add: mset_eq_imp_distinct_iff [OF e])
  moreover from e have "set ys = set xs" by (rule mset_eq_setD)
  ultimately show "length ys = length xs \<and> distinct ys \<and> set ys \<subseteq> set xs" by simp
next
  fix ys assume l: "length ys = length xs" and d: "distinct ys" and sub: "set ys \<subseteq> set xs"
  from d l assms have "card (set ys) = card (set xs)" by (simp add: distinct_card)
  with sub have "set ys = set xs" by (simp add: card_subset_eq)
  with d assms show "mset ys = mset xs" by (simp add: set_eq_iff_mset_eq_distinct)
qed

lemma card_permutations:
  assumes "distinct xs"
  shows "card {ys. mset ys = mset xs} = fact (length xs)"
proof -
  have "card {ys. length ys = length xs \<and> distinct ys \<and> set ys \<subseteq> set xs}
      = \<Prod>{card (set xs) - length xs + 1 .. card (set xs)}"
    by (rule card_lists_distinct_length_eq) (simp_all add: distinct_card [OF assms])
  also have "\<dots> = \<Prod>{1 .. length xs}" by (simp add: distinct_card [OF assms])
  also have "\<dots> = fact (length xs)" by (simp add: fact_prod)
  finally show ?thesis by (simp add: permutations_as_lists [OF assms])
qed

lemma not_equallyLikely:
  assumes "sortPermutes t xs" and "distinct xs" and "3 \<le> length xs"
  shows "\<not> equallyLikely t xs"
proof
  assume eq: "equallyLikely t xs"
  define p where "p = sortProb t xs"
  define n where "n = length xs"
  define h where "h = treeHeight t"
  have all: "sortProb t ys = p" if "mset ys = mset xs" for ys
    using eq that unfolding equallyLikely_def p_def by blast
  have "(\<Sum>ys \<in> {ys. mset ys = mset xs}. sortProb t ys) = (\<Sum>ys \<in> {ys. mset ys = mset xs}. p)"
    by (rule sum.cong [OF refl]) (simp add: all)
  also have "\<dots> = real (card {ys. mset ys = mset xs}) * p" by simp
  also have "\<dots> = real (fact n) * p"
    by (simp only: card_permutations [OF assms(2)] n_def)
  finally have "real (fact n) * p = 1"
    using sortProb_sum [OF assms(1)] by simp
  then have one: "real (fact n) * p * 2 ^ h = 2 ^ h" by simp
  from sortProb_dyadic [of t h xs]
  obtain c :: nat where c: "p * 2 ^ h = real c" by (auto simp: p_def h_def)
  have "real (fact n * c) = real (fact n) * (p * 2 ^ h)"
    by (simp only: c of_nat_mult)
  also have "\<dots> = real (2 ^ h)" using one by (simp add: mult.assoc)
  finally have e: "fact n * c = (2::nat) ^ h" by (simp only: of_nat_eq_iff)
  have "(3::nat) dvd fact n" by (rule dvd_fact) (use assms(3) in \<open>simp_all add: n_def\<close>)
  then have "(3::nat) dvd fact n * c" by (rule dvd_mult2)
  then have "(3::nat) dvd 2 ^ h" by (simp only: e)
  with three_not_dvd_two_power show False by blast
qed

text \<open>
  \<open>sortProb\<close> is the share of the sign lists that lead to a final order, among all
  lists of \<open>h\<close> signs, for every \<open>h\<close> that is at least the height of the tree; and the
  sort run on a random source whose draws are never one half is the sort run on the
  signs of the draws.
\<close>

lemma card_sign_lists: "card {bs :: bool list. length bs = h} = 2 ^ h"
proof -
  have "{bs :: bool list. length bs = h} = {bs. set bs \<subseteq> UNIV \<and> length bs = h}" by simp
  then show ?thesis using card_lists_length_eq [of "UNIV :: bool set" h] by simp
qed

lemma finite_sign_lists: "finite {bs :: bool list. length bs = h \<and> P bs}"
proof -
  have "finite {bs :: bool list. set bs \<subseteq> UNIV \<and> length bs = h}"
    by (rule finite_lists_length_eq) simp
  then show ?thesis by (rule rev_finite_subset) auto
qed

lemma sign_lists_Suc:
  "{bs. length bs = Suc h \<and> runSigns (Cmp neg zero pos) bs = Some out}
     = (#) True ` {bs. length bs = h \<and> runSigns neg bs = Some out}
       \<union> (#) False ` {bs. length bs = h \<and> runSigns pos bs = Some out}"
proof (intro set_eqI iffI)
  fix bs
  assume "bs \<in> {bs. length bs = Suc h \<and> runSigns (Cmp neg zero pos) bs = Some out}"
  then obtain b cs where bs: "bs = b # cs" and l: "length cs = h"
    and r: "runSigns (if b then neg else pos) cs = Some out"
    by (cases bs) auto
  then show "bs \<in> (#) True ` {bs. length bs = h \<and> runSigns neg bs = Some out}
       \<union> (#) False ` {bs. length bs = h \<and> runSigns pos bs = Some out}"
    by (cases b) auto
next
  fix bs
  assume "bs \<in> (#) True ` {bs. length bs = h \<and> runSigns neg bs = Some out}
       \<union> (#) False ` {bs. length bs = h \<and> runSigns pos bs = Some out}"
  then show "bs \<in> {bs. length bs = Suc h \<and> runSigns (Cmp neg zero pos) bs = Some out}"
    by auto
qed

lemma sortProb_counts:
  "treeHeight t \<le> h \<Longrightarrow>
   real (card {bs. length bs = h \<and> runSigns t bs = Some out}) = sortProb t out * 2 ^ h"
proof (induction t arbitrary: h)
  case (Done ys)
  show ?case
  proof (cases "ys = out")
    case True
    then have "{bs. length bs = h \<and> runSigns (Done ys) bs = Some out} = {bs. length bs = h}"
      by simp
    with True show ?thesis by (simp add: card_sign_lists)
  next
    case False
    then have "{bs. length bs = h \<and> runSigns (Done ys) bs = Some out} = {}" by simp
    with False show ?thesis by simp
  qed
next
  case (Cmp neg zero pos)
  from Cmp.prems obtain h' where h: "h = Suc h'" and n: "treeHeight neg \<le> h'"
    and p: "treeHeight pos \<le> h'"
    by (cases h) auto
  define A where "A = {bs. length bs = h' \<and> runSigns neg bs = Some out}"
  define B where "B = {bs. length bs = h' \<and> runSigns pos bs = Some out}"
  have fin: "finite A" "finite B" unfolding A_def B_def by (rule finite_sign_lists)+
  have disj: "(#) True ` A \<inter> (#) False ` B = {}" by auto
  have "card {bs. length bs = h \<and> runSigns (Cmp neg zero pos) bs = Some out}
      = card ((#) True ` A \<union> (#) False ` B)"
    unfolding h sign_lists_Suc A_def B_def ..
  also have "\<dots> = card ((#) True ` A) + card ((#) False ` B)"
    by (rule card_Un_disjoint) (use fin disj in simp_all)
  also have "\<dots> = card A + card B" by (simp add: card_image)
  finally have "real (card {bs. length bs = h \<and> runSigns (Cmp neg zero pos) bs = Some out})
      = real (card A) + real (card B)"
    by simp
  also have "\<dots> = sortProb neg out * 2 ^ h' + sortProb pos out * 2 ^ h'"
    unfolding A_def B_def by (simp add: Cmp.IH(1) [OF n] Cmp.IH(3) [OF p])
  also have "\<dots> = sortProb (Cmp neg zero pos) out * 2 ^ h"
    by (simp add: h algebra_simps)
  finally show ?case .
qed

lemma runSort_runSigns:
  assumes "\<And>j. rnd j \<noteq> 1 / 2" and "treeHeight t \<le> h"
  shows "runSigns t (map (\<lambda>j. rnd j < 1 / 2) [k..<k + h]) = Some (fst (runSort t rnd k))"
  using assms(2)
proof (induction t arbitrary: k h)
  case (Done ys)
  show ?case by simp
next
  case (Cmp neg zero pos)
  from Cmp.prems obtain h' where h: "h = Suc h'" and n: "treeHeight neg \<le> h'"
    and p: "treeHeight pos \<le> h'"
    by (cases h) auto
  have u: "[k..<k + h] = k # [Suc k..<Suc k + h']" by (simp add: h upt_conv_Cons)
  show ?case
  proof (cases "rnd k < 1 / 2")
    case True
    with Cmp.IH(1) [OF n, of "Suc k"] show ?thesis by (simp add: u Let_def)
  next
    case False
    with assms(1) [of k] have "rnd k - 1 / 2 > 0" by simp
    with False Cmp.IH(3) [OF p, of "Suc k"] show ?thesis by (simp add: u Let_def)
  qed
qed

text \<open>
  Claim C8, as amended. Whatever the engine's sort is, as long as it rearranges, the
  shuffle gives a rearrangement of the sampled points, chosen by the signs of the draws.
  It is not a uniform one: the probability of every final order is a whole number of
  \<open>2 ^ h\<close>-ths, \<open>h\<close> being the height of the decision tree, and with three sampled
  points or more the rearrangements are not equally likely.
\<close>

theorem shuffle_permutes_not_uniformly:
  assumes "0 < samplingStep cfg" and "samplePoints cfg (render txt) = Some validPoints"
    and "sortPermutes (engine validPoints) validPoints" and "3 \<le> length validPoints"
  shows "mset (fst (runSort (engine validPoints) rnd k)) = mset validPoints
     \<and> (\<exists>c::nat. sortProb (engine validPoints) out * 2 ^ treeHeight (engine validPoints) = real c)
     \<and> \<not> equallyLikely (engine validPoints) validPoints"
proof -
  have "mset (fst (runSort (engine validPoints) rnd k)) = mset validPoints"
    by (rule runSort_permutes [OF assms(3), of rnd k _ "snd (runSort (engine validPoints) rnd k)"])
       simp
  moreover have "\<exists>c::nat. sortProb (engine validPoints) out * 2 ^ treeHeight (engine validPoints) = real c"
    by (rule sortProb_dyadic) simp
  moreover have "\<not> equallyLikely (engine validPoints) validPoints"
    by (rule not_equallyLikely [OF assms(3) samplePoints_distinct [OF assms(1,2)] assms(4)])
  ultimately show ?thesis by blast
qed

text \<open>
  The decision tree of insertion sort on three elements, and the probabilities of two
  of its final orders for the three points.
\<close>

lemma insertionSort_three:
  "insertionSort [a, b, c] =
     Cmp (Cmp (Done [a, b, c]) (Done [a, b, c])
              (Cmp (Done [b, a, c]) (Done [b, a, c]) (Done [b, c, a])))
         (Cmp (Done [a, b, c]) (Done [a, b, c])
              (Cmp (Done [b, a, c]) (Done [b, a, c]) (Done [b, c, a])))
         (Cmp (Done [a, c, b]) (Done [a, c, b])
              (Cmp (Done [c, a, b]) (Done [c, a, b]) (Done [c, b, a])))"
  by simp

lemma threePoints_probabilities:
  "sortProb (insertionSort threePoints) threePoints = 1 / 4"
  "sortProb (insertionSort threePoints) (rev threePoints) = 1 / 8"
  unfolding threePoints_def insertionSort_three by simp_all

lemma whiteRender_samplePoints: "samplePoints exampleConfig (whiteRender txt) = Some threePoints"
  by (simp add: samplePoints_def exampleConfig_def CONFIG_def scanRows.simps scanRow.simps
      foreground_def whiteRender_def glyphAt_def threePoints_def)

text \<open>
  The claim as stated fails on the three points: insertion sort leaves them in their
  order with probability one quarter and reverses them with probability one eighth, and
  no engine makes the six orders equally likely.
\<close>

theorem shuffle_permutes_not_uniformly_counterexample:
  "samplePoints exampleConfig (whiteRender ''Hello'') = Some threePoints
   \<and> sortProb (insertionSort threePoints) threePoints = 1 / 4
   \<and> sortProb (insertionSort threePoints) (rev threePoints) = 1 / 8
   \<and> \<not> (\<exists>t. sortPermutes t threePoints \<and> equallyLikely t threePoints)"
proof -
  have d: "distinct threePoints" and l: "3 \<le> length threePoints"
    by (simp_all add: threePoints_def)
  have "\<not> equallyLikely t threePoints" if "sortPermutes t threePoints" for t
    by (rule not_equallyLikely [OF that d l])
  with threePoints_probabilities whiteRender_samplePoints show ?thesis by blast
qed

theorem shuffle_permutes_not_uniformly_witness:
  "0 < samplingStep exampleConfig
   \<and> samplePoints exampleConfig (whiteRender ''Hello'') = Some threePoints
   \<and> sortPermutes (insertionSort threePoints) threePoints
   \<and> 3 \<le> length threePoints
   \<and> fst (runSort (insertionSort threePoints) quarterSource 0) = threePoints
   \<and> mset (fst (runSort (insertionSort threePoints) quarterSource 0)) = mset threePoints
   \<and> sortProb (insertionSort threePoints) (rev threePoints)
        * 2 ^ treeHeight (insertionSort threePoints) = 1
   \<and> \<not> equallyLikely (insertionSort threePoints) threePoints"
proof -
  have s: "0 < samplingStep exampleConfig" by (simp add: exampleConfig_def)
  have l: "3 \<le> length threePoints" by (simp add: threePoints_def)
  note t = shuffle_permutes_not_uniformly [of exampleConfig whiteRender "''Hello''" threePoints
      insertionSort quarterSource 0, OF s whiteRender_samplePoints insertionSort_permutes l]
  have run: "fst (runSort (insertionSort threePoints) quarterSource 0) = threePoints"
    unfolding threePoints_def insertionSort_three by (simp add: quarterSource_def)
  have h: "treeHeight (insertionSort threePoints) = 3"
    unfolding threePoints_def insertionSort_three by simp
  have p: "sortProb (insertionSort threePoints) (rev threePoints)
        * 2 ^ treeHeight (insertionSort threePoints) = 1"
    unfolding h threePoints_probabilities by simp
  from t s whiteRender_samplePoints insertionSort_permutes [of threePoints] l run p
  show ?thesis by blast
qed

end
